theory Spec2Isabelle
  imports Complex_Main
begin

section \<open>AutoMTL: the differentiable architecture-search core\<close>

text \<open>
  The development embeds the search core of the repository: the decay scheduler of
  \<^verbatim>\<open>utils/utils.py\<close>, the auxiliary loss of \<^verbatim>\<open>nas/aux_losses.py\<close>, the mutable choice
  nodes of \<^verbatim>\<open>nas/choicer.py\<close> and the trainer of \<^verbatim>\<open>nas/automtl.py\<close>.
  Python floats are idealised as real numbers; where IEEE arithmetic leaves the reals
  (a division by zero that Python raises, or one that PyTorch answers with an infinity
  or a NaN) the model has a branch of its own.
\<close>

subsection \<open>Exceptions\<close>

text \<open>
  The exceptions of Python that the modelled code can raise. \<^verbatim>\<open>NonFiniteValue\<close> is not an
  exception: it marks a result that PyTorch computes with NaN entries, which a tensor of
  reals cannot hold.
\<close>

datatype py_error =
    ZeroDivisionError
  | ValueError
  | KeyError
  | IndexError
  | TypeError
  | AssertionError
  | RuntimeError
  | AttributeError
  | NoContextError
  | NonFiniteValue

subsection \<open>\<^verbatim>\<open>DecayScheduler\<close> (utils/utils.py)\<close>

record DecayScheduler =
  base_weight :: real
  cnt :: int
  decay_type :: string
  weight :: real
  steps :: int

text \<open>\<^verbatim>\<open>__init__(self, base_weight=1.0, steps=15, decay_type='linear')\<close>\<close>

definition DecayScheduler_init :: "real \<Rightarrow> int \<Rightarrow> string \<Rightarrow> DecayScheduler" where
  "DecayScheduler_init bw st ty =
     \<lparr>base_weight = bw, cnt = 0, decay_type = ty, weight = bw, steps = st - 1\<rparr>"

text \<open>\<^verbatim>\<open>reset(self, base_weight=1.0, steps=15)\<close>: the decay type is kept.\<close>

definition reset :: "DecayScheduler \<Rightarrow> real \<Rightarrow> int \<Rightarrow> DecayScheduler" where
  "reset s bw st = s\<lparr>base_weight := bw, cnt := 0, weight := bw, steps := st - 1\<rparr>"

text \<open>
  \<^verbatim>\<open>step(self)\<close>: the counter is incremented, then the weight is recomputed from the
  counter alone. The three decaying types divide by \<^verbatim>\<open>self.steps\<close>, and Python raises
  \<^verbatim>\<open>ZeroDivisionError\<close> when it is zero.
\<close>

definition DecayScheduler_step :: "DecayScheduler \<Rightarrow> py_error + DecayScheduler" where
  "DecayScheduler_step s =
     (let s1 = s\<lparr>cnt := cnt s + 1\<rparr> in
      if decay_type s1 = ''cosine'' then
        (if steps s1 = 0 then Inl ZeroDivisionError
         else Inr (s1\<lparr>weight := base_weight s1 *
                 (1 + cos (pi * of_int (cnt s1) / of_int (steps s1))) / 2\<rparr>))
      else if decay_type s1 = ''slow_cosine'' then
        (if steps s1 = 0 then Inl ZeroDivisionError
         else Inr (s1\<lparr>weight := base_weight s1 *
                 cos ((pi / 2) * of_int (cnt s1) / of_int (steps s1))\<rparr>))
      else if decay_type s1 = ''linear'' then
        (if steps s1 = 0 then Inl ZeroDivisionError
         else Inr (s1\<lparr>weight := base_weight s1 * of_int (steps s1 - cnt s1)
                 / of_int (steps s1)\<rparr>))
      else Inr (s1\<lparr>weight := base_weight s1\<rparr>))"

text \<open>\<^verbatim>\<open>k\<close> calls of \<^verbatim>\<open>step\<close> in a row; an exception ends the run.\<close>

fun advance :: "nat \<Rightarrow> DecayScheduler \<Rightarrow> py_error + DecayScheduler" where
  "advance 0 s = Inr s"
| "advance (Suc k) s =
     (case DecayScheduler_step s of Inl e \<Rightarrow> Inl e | Inr s' \<Rightarrow> advance k s')"

text \<open>
  The scheduler's part of \<^verbatim>\<open>DartsTrainer._resume_checkpoint\<close>:
  \<^verbatim>\<open>self.start_epoch = checkpoint['epoch'] + 1\<close>,
  \<^verbatim>\<open>auxiliary_skip_weight.cnt = self.start_epoch - 1\<close>,
  \<^verbatim>\<open>auxiliary_skip_weight.step()\<close>.
\<close>

definition resume_decay :: "int \<Rightarrow> DecayScheduler \<Rightarrow> py_error + DecayScheduler" where
  "resume_decay epoch s =
     (let start_epoch = epoch + 1 in DecayScheduler_step (s\<lparr>cnt := start_epoch - 1\<rparr>))"

text \<open>
  An interrupted run: a first process resets the scheduler and advances it \<^verbatim>\<open>k - 1\<close>
  times; the scheduler itself is not in the checkpoint, only the epoch index is. A second
  process resets a scheduler of its own (\<^verbatim>\<open>s'\<close>) and resumes it from the epoch index
  that makes \<^verbatim>\<open>start_epoch - 1\<close> equal to \<^verbatim>\<open>k - 1\<close>.
\<close>

definition interrupted_run ::
  "nat \<Rightarrow> DecayScheduler \<Rightarrow> DecayScheduler \<Rightarrow> real \<Rightarrow> int \<Rightarrow> py_error + DecayScheduler" where
  "interrupted_run k s s' bw st =
     (case advance (k - 1) (reset s bw st) of
        Inl e \<Rightarrow> Inl e
      | Inr _ \<Rightarrow> resume_decay (int k - 1) (reset s' bw st))"

text \<open>The weight a run ends with, or the exception that ended it.\<close>

definition final_weight :: "py_error + DecayScheduler \<Rightarrow> py_error + real" where
  "final_weight r = (case r of Inl e \<Rightarrow> Inl e | Inr s \<Rightarrow> Inr (weight s))"

subsection \<open>Loss values and the model step (trainer/trainer.py, nas/automtl.py)\<close>

text \<open>
  A scalar loss tensor holds a finite number, an infinity or a NaN. \<^verbatim>\<open>fadd\<close> is the
  IEEE addition on these values (rounding and overflow apart).
\<close>

datatype fval = Num real | PosInf | NegInf | NaN

fun fadd :: "fval \<Rightarrow> fval \<Rightarrow> fval" where
  "fadd NaN _ = NaN"
| "fadd _ NaN = NaN"
| "fadd PosInf NegInf = NaN"
| "fadd NegInf PosInf = NaN"
| "fadd PosInf _ = PosInf"
| "fadd _ PosInf = PosInf"
| "fadd NegInf _ = NegInf"
| "fadd _ NegInf = NegInf"
| "fadd (Num a) (Num b) = Num (a + b)"

text \<open>\<^verbatim>\<open>torch.isnan\<close>\<close>

definition isnan :: "fval \<Rightarrow> bool" where
  "isnan x = (x = NaN)"

text \<open>What the loss function returns: a tuple of per-task losses or a single loss.\<close>

datatype losses = Tuple "fval list" | Single fval

text \<open>
  The value bound to \<^verbatim>\<open>loss\<close>: a scalar tensor, or a Python integer (\<^verbatim>\<open>sum(())\<close> is the
  integer \<^verbatim>\<open>0\<close>, not a tensor).
\<close>

datatype loss_value = PyInt int | TensorVal fval

text \<open>
  The loss of \<^verbatim>\<open>_preds_and_loss\<close>: \<^verbatim>\<open>sum(losses)\<close> for a tuple (Python's \<^verbatim>\<open>sum\<close>
  starts from the integer \<^verbatim>\<open>0\<close> and adds from the left, so that the sum of an empty
  tuple is that integer and any other sum a tensor), the value itself otherwise.
\<close>

definition preds_loss :: "losses \<Rightarrow> loss_value" where
  "preds_loss ls =
     (case ls of
        Tuple xs \<Rightarrow> (if xs = [] then PyInt 0 else TensorVal (foldl fadd (Num 0) xs))
      | Single x \<Rightarrow> TensorVal x)"

text \<open>\<^verbatim>\<open>loss + sim_loss\<close>, where \<^verbatim>\<open>sim_loss\<close> is a tensor: the result is a tensor.\<close>

definition loss_add :: "loss_value \<Rightarrow> fval \<Rightarrow> loss_value" where
  "loss_add loss sim =
     (case loss of
        PyInt i \<Rightarrow> TensorVal (fadd (Num (of_int i)) sim)
      | TensorVal x \<Rightarrow> TensorVal (fadd x sim))"

text \<open>
  \<^verbatim>\<open>AbstractTrainer._check_nan\<close>; \<^verbatim>\<open>torch.isnan\<close> raises \<^verbatim>\<open>TypeError\<close> on an argument
  that is not a tensor.
\<close>

definition check_nan :: "loss_value \<Rightarrow> py_error + unit" where
  "check_nan loss =
     (case loss of
        PyInt i \<Rightarrow> Inl TypeError
      | TensorVal x \<Rightarrow> (if isnan x then Inl ValueError else Inr ()))"

text \<open>
  Phase 2 of \<^verbatim>\<open>DartsTrainer._train_epoch\<close> for one batch, as the trace of the gradient
  and optimizer operations it performs and the exception it ends with, if any.
  \<^verbatim>\<open>sim\<close> is the value \<^verbatim>\<open>self.sim_loss(...)\<close> returns; it is used from epoch 5 on.
\<close>

datatype event =
  ZeroGradModel | ZeroGradExpert | Backward | ClipModel | ClipExpert | StepModel | StepExpert

definition combined_loss :: "int \<Rightarrow> losses \<Rightarrow> fval \<Rightarrow> loss_value" where
  "combined_loss epoch_idx ls sim =
     (let loss = preds_loss ls in if epoch_idx \<ge> 5 then loss_add loss sim else loss)"

definition model_step :: "int \<Rightarrow> bool \<Rightarrow> losses \<Rightarrow> fval \<Rightarrow> event list \<times> py_error option" where
  "model_step epoch_idx clip_grad_norm ls sim =
     (let tr0 = [ZeroGradModel] @ (if epoch_idx \<ge> 5 then [ZeroGradExpert] else []);
          loss = combined_loss epoch_idx ls sim
      in case check_nan loss of
           Inl e \<Rightarrow> (tr0, Some e)
         | Inr _ \<Rightarrow>
             (tr0 @ [Backward]
                @ (if clip_grad_norm then [ClipModel, ClipExpert] else [])
                @ [StepModel]
                @ (if epoch_idx \<ge> 5 then [StepExpert] else []), None))"

text \<open>The claim's notion of a non-finite loss: NaN or an infinity of either sign.\<close>

definition non_finite :: "fval \<Rightarrow> bool" where
  "non_finite x = (case x of Num _ \<Rightarrow> False | _ \<Rightarrow> True)"

subsection \<open>\<^verbatim>\<open>JSDivLoss\<close> (nas/aux_losses.py)\<close>

text \<open>
  An architecture-weight tensor \<^verbatim>\<open>alpha\<close> is one-dimensional: a list of reals.
  \<^verbatim>\<open>torch.softmax(alpha, dim=-1)\<close>:
\<close>

definition softmax :: "real list \<Rightarrow> real list" where
  "softmax xs = map (\<lambda>x. exp x / sum_list (map exp xs)) xs"













subsection \<open>Collected choice wrappers and shared architecture weights (\<^verbatim>\<open>DartsTrainer.__init__\<close>)\<close>

text \<open>
  A tensor object is known by its identity, an address; two attributes hold the identical
  tensor when they hold the same address. Of a wrapper (\<^verbatim>\<open>DartsLayerChoice\<close> or
  \<^verbatim>\<open>DartsExpertChoice\<close>) the constructor reads the attributes \<^verbatim>\<open>name\<close> (the label of the
  choice it replaced) and \<^verbatim>\<open>alpha\<close>.
\<close>

type_synonym addr = nat

record wrapper =
  name :: string
  alpha :: addr

text \<open>
  A Python \<^verbatim>\<open>dict\<close> with string keys, in insertion order: assigning to a key that is
  present keeps its position, a new key goes last.
\<close>

type_synonym 'v pydict = "(string \<times> 'v) list"

fun dict_set :: "'v pydict \<Rightarrow> string \<Rightarrow> 'v \<Rightarrow> 'v pydict" where
  "dict_set [] k v = [(k, v)]"
| "dict_set ((k', v') # d) k v = (if k' = k then (k, v) # d else (k', v') # dict_set d k v)"

definition dict_values :: "'v pydict \<Rightarrow> 'v list" where
  "dict_values d = map snd d"

text \<open>
  The loop over \<^verbatim>\<open>self.expert_modules\<close>:
  \<^verbatim>\<open>for _, m in self.expert_modules: self.expert_params[m.name] = m.alpha\<close>.
  No wrapper is changed.
\<close>

fun collect_expert_params :: "(string \<times> wrapper) list \<Rightarrow> addr pydict \<Rightarrow> addr pydict" where
  "collect_expert_params [] d = d"
| "collect_expert_params ((_, m) # ms) d = collect_expert_params ms (dict_set d (name m) (alpha m))"

text \<open>
  The loop over \<^verbatim>\<open>self.nas_modules\<close>; \<^verbatim>\<open>tsize a\<close> is \<^verbatim>\<open>size()\<close> of the tensor at \<^verbatim>\<open>a\<close>.
  A wrapper whose name is in \<^verbatim>\<open>ctrl_params\<close> already is rebound to the tensor stored
  there, after the assertion on the sizes; otherwise its tensor is stored.
  The result is the list of wrappers after the loop and \<^verbatim>\<open>ctrl_params\<close>.
\<close>

fun share_ctrl_params ::
  "(addr \<Rightarrow> nat list) \<Rightarrow> (string \<times> wrapper) list \<Rightarrow> addr pydict
     \<Rightarrow> py_error + (string \<times> wrapper) list \<times> addr pydict" where
  "share_ctrl_params tsize [] ctrl_params = Inr ([], ctrl_params)"
| "share_ctrl_params tsize ((l, m) # ms) ctrl_params =
     (case map_of ctrl_params (name m) of
        Some a \<Rightarrow>
          if tsize (alpha m) = tsize a then
            (case share_ctrl_params tsize ms ctrl_params of
               Inl e \<Rightarrow> Inl e
             | Inr (ms', d) \<Rightarrow> Inr ((l, m\<lparr>alpha := a\<rparr>) # ms', d))
          else Inl AssertionError
      | None \<Rightarrow>
          (case share_ctrl_params tsize ms (ctrl_params @ [(name m, alpha m)]) of
             Inl e \<Rightarrow> Inl e
           | Inr (ms', d) \<Rightarrow> Inr ((l, m) # ms', d)))"

text \<open>
  \<^verbatim>\<open>torch.optim.Adam(params, ...)\<close>, as far as the parameters go: the constructor of a
  torch optimizer raises \<^verbatim>\<open>ValueError\<close> on an empty parameter list and holds the given
  tensors otherwise.
\<close>

definition Adam :: "addr list \<Rightarrow> py_error + addr list" where
  "Adam params = (if params = [] then Inl ValueError else Inr params)"

text \<open>
  The part of the trainer's state that the constructor builds from the collected
  wrappers, in the order of the source: the loop over the expert-subset wrappers, the
  optimizer \<^verbatim>\<open>expert_optim\<close> over \<^verbatim>\<open>list(self.expert_params.values())\<close>, the loop over the
  operation-level wrappers, and the optimizer \<^verbatim>\<open>ctrl_optim\<close> over
  \<^verbatim>\<open>list(ctrl_params.values())\<close>. The lists \<^verbatim>\<open>experts\<close> and \<^verbatim>\<open>nas\<close> are what
  \<^verbatim>\<open>replace_expert_choice\<close> and \<^verbatim>\<open>replace_layer_choice\<close> collected.
\<close>

record trainer_choices =
  expert_modules :: "(string \<times> wrapper) list"
  nas_modules :: "(string \<times> wrapper) list"
  expert_params :: "addr pydict"
  expert_optim_params :: "addr list"
  ctrl_optim_params :: "addr list"

definition DartsTrainer_init_choices ::
  "(addr \<Rightarrow> nat list) \<Rightarrow> (string \<times> wrapper) list \<Rightarrow> (string \<times> wrapper) list
     \<Rightarrow> py_error + trainer_choices" where
  "DartsTrainer_init_choices tsize experts nas =
     (let ep = collect_expert_params experts [] in
      case Adam (dict_values ep) of
        Inl e \<Rightarrow> Inl e
      | Inr expert_optim \<Rightarrow>
          (case share_ctrl_params tsize nas [] of
             Inl e \<Rightarrow> Inl e
           | Inr (nas', ctrl_params) \<Rightarrow>
               (case Adam (dict_values ctrl_params) of
                  Inl e \<Rightarrow> Inl e
                | Inr ctrl_optim \<Rightarrow>
                    Inr \<lparr>expert_modules = experts, nas_modules = nas', expert_params = ep,
                         expert_optim_params = expert_optim,
                         ctrl_optim_params = ctrl_optim\<rparr>)))"

text \<open>
  \<^verbatim>\<open>DartsTrainer.export\<close>, as far as the choice of the wrapper goes: of the wrappers of a
  list with one name, the first is the one whose architecture is reported
  (\<^verbatim>\<open>if name not in result\<close>). The result pairs each name with the tensor of that wrapper.
\<close>

fun export_alphas :: "(string \<times> wrapper) list \<Rightarrow> addr pydict \<Rightarrow> addr pydict" where
  "export_alphas [] result = result"
| "export_alphas ((n, m) # ms) result =
     (if map_of result n = None then export_alphas ms (result @ [(n, alpha m)])
      else export_alphas ms result)"

definition DartsTrainer_export :: "trainer_choices \<Rightarrow> addr pydict" where
  "DartsTrainer_export t = export_alphas (expert_modules t) (export_alphas (nas_modules t) [])"

text \<open>
  Two notions for stating the sharing: the wrappers of a list share their tensor by
  label, and the tensor of the first wrapper of a list that carries a given name.
\<close>

definition shares_by_label :: "(string \<times> wrapper) list \<Rightarrow> bool" where
  "shares_by_label ws =
     list_all (\<lambda>(_, m). list_all (\<lambda>(_, m'). name m = name m' \<longrightarrow> alpha m = alpha m') ws) ws"

fun first_alpha :: "(string \<times> wrapper) list \<Rightarrow> string \<Rightarrow> addr option" where
  "first_alpha [] k = None"
| "first_alpha ((_, m) # ms) k = (if name m = k then Some (alpha m) else first_alpha ms k)"

text \<open>
  What the loop over \<^verbatim>\<open>self.nas_modules\<close> finds for a name when it starts from the
  dictionary \<^verbatim>\<open>d\<close>: the entry of \<^verbatim>\<open>d\<close>, or else the tensor of the first wrapper with
  that name.
\<close>

definition look :: "addr pydict \<Rightarrow> (string \<times> wrapper) list \<Rightarrow> string \<Rightarrow> addr option" where
  "look d ms k = (case map_of d k of Some a \<Rightarrow> Some a | None \<Rightarrow> first_alpha ms k)"

subsection \<open>Module trees and their parameters\<close>

text \<open>
  A module (\<^verbatim>\<open>torch.nn.Module\<close>) as far as parameter iteration sees it: its class, its
  registered parameters (\<^verbatim>\<open>_parameters\<close>: name and tensor identity, in registration
  order) and its registered submodules (\<^verbatim>\<open>_modules\<close>). Three classes matter: the two
  wrappers of \<^verbatim>\<open>nas/automtl.py\<close>, whose parameter \<^verbatim>\<open>alpha\<close> is an architecture weight,
  and every other class (\<^verbatim>\<open>Op\<close>).
\<close>

datatype mclass = Op | DartsLayerChoice | DartsExpertChoice

datatype module = Module mclass "(string \<times> addr) list" "(string \<times> module) list"

text \<open>
  \<^verbatim>\<open>torch.nn.Module.named_parameters()\<close>, the method the wrappers call through
  \<^verbatim>\<open>super()\<close>: the module itself first and then its submodules in order, depth first;
  a parameter's name is the path of submodule names and its own name joined by dots; a
  tensor that was yielded already is skipped (\<^verbatim>\<open>memo\<close> is the set of tensors seen).
\<close>

fun named_members :: "string \<Rightarrow> module \<Rightarrow> (string \<times> addr) list" where
  "named_members prefix (Module c ps ms) =
     map (\<lambda>(n, a). (prefix @ n, a)) ps
     @ concat (map (\<lambda>(n, m). named_members (prefix @ n @ ''.'') m) ms)"

fun remove_duplicate :: "addr set \<Rightarrow> (string \<times> addr) list \<Rightarrow> (string \<times> addr) list" where
  "remove_duplicate memo [] = []"
| "remove_duplicate memo ((n, a) # xs) =
     (if a \<in> memo then remove_duplicate memo xs
      else (n, a) # remove_duplicate (insert a memo) xs)"

definition Module_named_parameters :: "module \<Rightarrow> (string \<times> addr) list" where
  "Module_named_parameters m = remove_duplicate {} (named_members [] m)"

text \<open>
  The wrappers as modules. \<^verbatim>\<open>DartsLayerChoice.__init__\<close> registers the submodule
  \<^verbatim>\<open>op_choices\<close> (a \<^verbatim>\<open>ModuleDict\<close> of the candidates), the parameter \<^verbatim>\<open>alpha\<close> and the
  submodules \<^verbatim>\<open>drop_path\<close> and \<^verbatim>\<open>auxiliary_op\<close>, which have no parameter;
  \<^verbatim>\<open>DartsExpertChoice.__init__\<close> registers \<^verbatim>\<open>op_choices\<close>, \<^verbatim>\<open>alpha\<close> and
  \<^verbatim>\<open>auxiliary_skip\<close>.
\<close>

definition DartsLayerChoice_module :: "addr \<Rightarrow> (string \<times> module) list \<Rightarrow> module" where
  "DartsLayerChoice_module a ops =
     Module DartsLayerChoice [(''alpha'', a)]
       [(''op_choices'', Module Op [] ops), (''drop_path'', Module Op [] []),
        (''auxiliary_op'', Module Op [] [])]"

definition DartsExpertChoice_module :: "addr \<Rightarrow> (string \<times> module) list \<Rightarrow> module" where
  "DartsExpertChoice_module a ops =
     Module DartsExpertChoice [(''alpha'', a)]
       [(''op_choices'', Module Op [] ops), (''auxiliary_skip'', Module Op [] [])]"

text \<open>
  \<^verbatim>\<open>named_parameters(self)\<close> and \<^verbatim>\<open>parameters(self)\<close> of both wrappers: the entries of
  \<^verbatim>\<open>super().named_parameters()\<close> whose name is not \<^verbatim>\<open>'alpha'\<close>.
\<close>

definition wrapper_named_parameters :: "module \<Rightarrow> (string \<times> addr) list" where
  "wrapper_named_parameters self =
     filter (\<lambda>(n, p). n \<noteq> ''alpha'') (Module_named_parameters self)"

definition wrapper_parameters :: "module \<Rightarrow> addr list" where
  "wrapper_parameters self = map snd (wrapper_named_parameters self)"

text \<open>
  The architecture weights of a module tree: the parameter \<^verbatim>\<open>alpha\<close> of every wrapper
  in it.
\<close>

fun arch_weights :: "module \<Rightarrow> addr list" where
  "arch_weights (Module c ps ms) =
     (if c = Op then [] else map snd (filter (\<lambda>(n, a). n = ''alpha'') ps))
     @ concat (map (\<lambda>(n, m). arch_weights m) ms)"

subsection \<open>The fixed-architecture context and \<^verbatim>\<open>LayerChoice\<close> (utils/utils.py, nas/choicer.py)\<close>

text \<open>
  A value of the architecture file (JSON): a candidate name, a number or a list.
  A fixed architecture binds labels to such values; \<^verbatim>\<open>ContextStack._stack\<close> maps a
  namespace to the stack of the values pushed for it (\<^verbatim>\<open>push\<close> appends, \<^verbatim>\<open>pop\<close>
  removes the last).
\<close>

datatype fixed_value = FStr string | FInt int | FList "fixed_value list"

type_synonym context_stack = "string \<Rightarrow> fixed_value pydict list"

definition ContextStack_push :: "context_stack \<Rightarrow> string \<Rightarrow> fixed_value pydict \<Rightarrow> context_stack" where
  "ContextStack_push stack key v = stack (key := stack key @ [v])"

definition ContextStack_pop :: "context_stack \<Rightarrow> string \<Rightarrow> py_error + context_stack" where
  "ContextStack_pop stack key = (if stack key = [] then Inl IndexError else Inr (stack (key := butlast (stack key))))"

definition ContextStack_top :: "context_stack \<Rightarrow> string \<Rightarrow> py_error + fixed_value pydict" where
  "ContextStack_top stack key = (if stack key = [] then Inl NoContextError else Inr (last (stack key)))"

text \<open>\<^verbatim>\<open>get_current_context\<close> and \<^verbatim>\<open>get_fixed_value\<close>\<close>

definition get_current_context :: "context_stack \<Rightarrow> string \<Rightarrow> py_error + fixed_value pydict" where
  "get_current_context stack key = ContextStack_top stack key"

definition get_fixed_value :: "context_stack \<Rightarrow> string \<Rightarrow> py_error + fixed_value" where
  "get_fixed_value stack label =
     (case get_current_context stack ''fixed'' of
        Inl e \<Rightarrow> Inl e
      | Inr ret \<Rightarrow> (case map_of ret label of None \<Rightarrow> Inl KeyError | Some v \<Rightarrow> Inr v))"

text \<open>
  The candidates handed to \<^verbatim>\<open>LayerChoice\<close>: a list of modules or a dictionary of named
  modules. They are modules that the caller has built already. Indexing a Python list
  counts a negative index from the end.
\<close>

datatype candidates = CandList "module list" | CandDict "module pydict"

definition list_index :: "'a list \<Rightarrow> int \<Rightarrow> py_error + 'a" where
  "list_index xs i =
     (if 0 \<le> i \<and> i < int (length xs) then Inr (xs ! nat i)
      else if i < 0 \<and> - i \<le> int (length xs) then Inr (xs ! nat (int (length xs) + i))
      else Inl IndexError)"

text \<open>
  \<^verbatim>\<open>LayerChoice.create_fixed_module(cls, candidates, label, **kwargs)\<close>.
  \<^verbatim>\<open>py_int\<close> is Python's \<^verbatim>\<open>int\<close> on strings (\<^verbatim>\<open>None\<close> where it raises \<^verbatim>\<open>ValueError\<close>);
  a list is not a valid argument of \<^verbatim>\<open>int\<close> and not a valid dictionary key.
\<close>

definition create_fixed_module ::
  "(string \<Rightarrow> int option) \<Rightarrow> context_stack \<Rightarrow> candidates \<Rightarrow> string \<Rightarrow> py_error + module" where
  "create_fixed_module py_int stack cands label =
     (case get_fixed_value stack label of
        Inl e \<Rightarrow> Inl e
      | Inr chosen \<Rightarrow>
          (case cands of
             CandList ms \<Rightarrow>
               (case chosen of
                  FStr s \<Rightarrow> (case py_int s of None \<Rightarrow> Inl ValueError | Some i \<Rightarrow> list_index ms i)
                | FInt i \<Rightarrow> list_index ms i
                | FList _ \<Rightarrow> Inl TypeError)
           | CandDict d \<Rightarrow>
               (case chosen of
                  FStr s \<Rightarrow> (case map_of d s of None \<Rightarrow> Inl KeyError | Some m \<Rightarrow> Inr m)
                | FInt _ \<Rightarrow> Inl KeyError
                | FList _ \<Rightarrow> Inl TypeError)))"

text \<open>
  A \<^verbatim>\<open>LayerChoice\<close> object that was not fixed, as \<^verbatim>\<open>__init__\<close> leaves it: it holds every
  candidate. \<^verbatim>\<open>__init__\<close> needs a dictionary (it calls \<^verbatim>\<open>candidates.items()\<close>); an empty
  or missing prior is replaced by the uniform one; the prior must sum to one within
  \<^verbatim>\<open>1e-5\<close>; the first name is looked up at the end. The checks \<^verbatim>\<open>add_module\<close> makes on the
  names are not modelled.
\<close>

record LayerChoice =
  lc_candidates :: "module pydict"
  prior :: "real list"
  label :: string
  names :: "string list"

definition LayerChoice_init ::
  "candidates \<Rightarrow> string \<Rightarrow> real list option \<Rightarrow> py_error + LayerChoice" where
  "LayerChoice_init cands l pr =
     (let n = (case cands of CandList ms \<Rightarrow> length ms | CandDict d \<Rightarrow> length d);
          p = (case pr of
                 None \<Rightarrow> replicate n (1 / real n)
               | Some xs \<Rightarrow> if xs = [] then replicate n (1 / real n) else xs)
      in if \<not> \<bar>sum_list p - 1\<bar> < 1 / 100000 then Inl AssertionError
         else (case cands of
                 CandList _ \<Rightarrow> Inl AttributeError
               | CandDict d \<Rightarrow>
                   if d = [] then Inl IndexError
                   else Inr \<lparr>lc_candidates = d, prior = p, label = l, names = map fst d\<rparr>))"

text \<open>
  \<^verbatim>\<open>Mutable.__new__\<close> followed by what Python does with its result, for the call
  \<^verbatim>\<open>LayerChoice(candidates, label, prior=...)\<close>: the fixed module is returned as it is
  (it is not a \<^verbatim>\<open>LayerChoice\<close>, so \<^verbatim>\<open>__init__\<close> does not run); only
  \<^verbatim>\<open>NoContextError\<close> is caught, and then a new object is made and initialised.
  Candidates are built operations; a candidate that is itself a \<^verbatim>\<open>LayerChoice\<close> object
  is outside this model.
\<close>

datatype constructed = Fixed module | Searchable LayerChoice

definition LayerChoice_new ::
  "(string \<Rightarrow> int option) \<Rightarrow> context_stack \<Rightarrow> candidates \<Rightarrow> string \<Rightarrow> real list option
     \<Rightarrow> py_error + constructed" where
  "LayerChoice_new py_int stack cands l pr =
     (case create_fixed_module py_int stack cands l of
        Inr m \<Rightarrow> Inr (Fixed m)
      | Inl e \<Rightarrow>
          if e = NoContextError then
            (case LayerChoice_init cands l pr of Inl e' \<Rightarrow> Inl e' | Inr c \<Rightarrow> Inr (Searchable c))
          else Inl e)"

text \<open>
  The modules a constructed node holds, and all their parameters: what the final model
  gets from the construction.
\<close>

definition held_modules :: "constructed \<Rightarrow> module list" where
  "held_modules c = (case c of Fixed m \<Rightarrow> [m] | Searchable lc \<Rightarrow> map snd (lc_candidates lc))"

definition held_parameters :: "constructed \<Rightarrow> addr list" where
  "held_parameters c = concat (map (\<lambda>m. map snd (Module_named_parameters m)) (held_modules c))"

subsection \<open>\<^verbatim>\<open>DropPath\<close> and \<^verbatim>\<open>DartsLayerChoice.forward\<close> (blocks/ops.py, nas/automtl.py)\<close>

text \<open>
  The activations that flow through a choice node are batches \<^verbatim>\<open>[batch_size, dim]\<close>:
  a list of rows, one per data point, all of one length, with at least one row.
  \<^verbatim>\<open>bzip\<close> is PyTorch's broadcasting along one dimension: equal sizes go elementwise, a
  size of one is repeated, and any other pair of sizes raises \<^verbatim>\<open>RuntimeError\<close>.
\<close>

type_synonym matrix = "real list list"

fun sequence :: "(py_error + 'a) list \<Rightarrow> py_error + 'a list" where
  "sequence [] = Inr []"
| "sequence (r # rs) =
     (case r of
        Inl e \<Rightarrow> Inl e
      | Inr v \<Rightarrow> (case sequence rs of Inl e \<Rightarrow> Inl e | Inr vs \<Rightarrow> Inr (v # vs)))"

definition bzip :: "('a \<Rightarrow> 'b \<Rightarrow> py_error + 'c) \<Rightarrow> 'a list \<Rightarrow> 'b list \<Rightarrow> py_error + 'c list" where
  "bzip f xs ys =
     (if length xs = length ys then sequence (map2 f xs ys)
      else if length xs = 1 then sequence (map (f (hd xs)) ys)
      else if length ys = 1 then sequence (map (\<lambda>x. f x (hd ys)) xs)
      else Inl RuntimeError)"

definition tensor_add :: "matrix \<Rightarrow> matrix \<Rightarrow> py_error + matrix" where
  "tensor_add a b = bzip (bzip (\<lambda>x y. Inr (x + y))) a b"

definition scale :: "real \<Rightarrow> matrix \<Rightarrow> matrix" where
  "scale c m = map (map ((*) c)) m"

text \<open>
  \<^verbatim>\<open>DropPath.forward(x)\<close> for a module with ratio \<^verbatim>\<open>p\<close> and mode \<^verbatim>\<open>training\<close>.
  \<^verbatim>\<open>kept b\<close> is the Bernoulli draw of the mask for row \<^verbatim>\<open>b\<close> (kept or zeroed). \<^verbatim>\<open>bernoulli_\<close> rejects a
  probability below zero; with \<^verbatim>\<open>keep_prob = 0\<close> every entry is \<^verbatim>\<open>x / 0 * 0\<close>, a NaN.
\<close>

definition DropPath_forward :: "real \<Rightarrow> bool \<Rightarrow> (nat \<Rightarrow> bool) \<Rightarrow> matrix \<Rightarrow> py_error + matrix" where
  "DropPath_forward p training kept x =
     (if training \<and> p > 0 then
        (let keep_prob = 1 - p in
         if keep_prob < 0 then Inl RuntimeError
         else if keep_prob = 0 then (if concat x = [] then Inr x else Inl NonFiniteValue)
         else Inr (map (\<lambda>(b, row). map (\<lambda>v. v / keep_prob * (if kept b then 1 else 0)) row)
                     (enumerate 0 x)))
      else Inr x)"

text \<open>
  The list comprehension \<^verbatim>\<open>[self.drop_path(op(*args, **kargs)) for op in ...]\<close>: every
  candidate is applied once, in order, to the same input, and its result goes through the
  drop path, which draws a new mask at each call (\<^verbatim>\<open>masks i\<close> at the \<^verbatim>\<open>i\<close>-th).
  A candidate is a function of its input that may raise.
\<close>

fun op_results ::
  "real \<Rightarrow> bool \<Rightarrow> (nat \<Rightarrow> nat \<Rightarrow> bool) \<Rightarrow> nat \<Rightarrow> (matrix \<Rightarrow> py_error + matrix) list \<Rightarrow> matrix
     \<Rightarrow> py_error + matrix list" where
  "op_results p training masks i [] x = Inr []"
| "op_results p training masks i (op # ops) x =
     (case op x of
        Inl e \<Rightarrow> Inl e
      | Inr y \<Rightarrow>
          (case DropPath_forward p training (masks i) y of
             Inl e \<Rightarrow> Inl e
           | Inr z \<Rightarrow>
               (case op_results p training masks (Suc i) ops x of
                  Inl e \<Rightarrow> Inl e
                | Inr zs \<Rightarrow> Inr (z # zs))))"

text \<open>
  \<^verbatim>\<open>torch.stack\<close> wants at least one tensor and equal shapes. \<^verbatim>\<open>torch.sum(..., dim=0)\<close>
  adds the stacked tensors, starting from zeros of their shape.
\<close>

definition torch_stack :: "matrix list \<Rightarrow> py_error + matrix list" where
  "torch_stack ts =
     (case ts of
        [] \<Rightarrow> Inl RuntimeError
      | t # ts' \<Rightarrow>
          if list_all (\<lambda>u. map length u = map length t) ts' then Inr ts else Inl RuntimeError)"

definition sum_dim0 :: "matrix \<Rightarrow> matrix list \<Rightarrow> matrix" where
  "sum_dim0 like ts = foldl (map2 (map2 (+))) (map (map (\<lambda>_. 0)) like) ts"

text \<open>
  \<^verbatim>\<open>DartsLayerChoice.forward\<close> for the wrapper with architecture weights \<^verbatim>\<open>alpha\<close>,
  candidates \<^verbatim>\<open>op_choices\<close> and a drop path of ratio \<^verbatim>\<open>p\<close>; \<^verbatim>\<open>aux\<close> is the global
  \<^verbatim>\<open>auxiliary_skip_weight\<close> and \<^verbatim>\<open>self.auxiliary_op\<close> is the identity.
\<close>

definition DartsLayerChoice_forward ::
  "real list \<Rightarrow> (matrix \<Rightarrow> py_error + matrix) list \<Rightarrow> real \<Rightarrow> bool \<Rightarrow> (nat \<Rightarrow> nat \<Rightarrow> bool)
     \<Rightarrow> DecayScheduler \<Rightarrow> matrix \<Rightarrow> py_error + matrix" where
  "DartsLayerChoice_forward alpha_w op_choices p training masks aux x =
     (case op_results p training masks 0 op_choices x of
        Inl e \<Rightarrow> Inl e
      | Inr zs \<Rightarrow>
          (case torch_stack zs of
             Inl e \<Rightarrow> Inl e
           | Inr st \<Rightarrow>
               (case bzip (\<lambda>t w. Inr (scale w t)) st (softmax alpha_w) of
                  Inl e \<Rightarrow> Inl e
                | Inr weighted \<Rightarrow>
                    tensor_add (sum_dim0 (hd st) weighted) (scale (weight aux) x))))"

text \<open>
  The specification's words, for comparison: the weighted sum, over the candidates, of
  the softmax weight times the candidate's output, at row \<^verbatim>\<open>b\<close> and column \<^verbatim>\<open>j\<close>.
\<close>

definition mixture_entry :: "real list \<Rightarrow> matrix list \<Rightarrow> nat \<Rightarrow> nat \<Rightarrow> real" where
  "mixture_entry ws ys b j = (\<Sum>i<length ys. ws ! i * ys ! i ! b ! j)"

subsection \<open>Tensors with non-finite entries\<close>

text \<open>
  The unrolled gradient divides by a norm that may be zero, which PyTorch answers with an
  infinity and then with NaN. Its tensors are therefore lists of \<^verbatim>\<open>fval\<close> (a parameter
  tensor is taken flat), with the IEEE rules for the operations the routine uses;
  rounding, overflow and the sign of zero are left out.
\<close>

type_synonym tensor = "fval list"

fun fneg :: "fval \<Rightarrow> fval" where
  "fneg (Num a) = Num (- a)"
| "fneg PosInf = NegInf"
| "fneg NegInf = PosInf"
| "fneg NaN = NaN"

definition fsub :: "fval \<Rightarrow> fval \<Rightarrow> fval" where
  "fsub a b = fadd a (fneg b)"

text \<open>The sign of a value that is not NaN, and the infinity of a given sign.\<close>

fun fsgn :: "fval \<Rightarrow> real" where
  "fsgn (Num a) = sgn a"
| "fsgn PosInf = 1"
| "fsgn NegInf = - 1"
| "fsgn NaN = 0"

definition inf_of_sign :: "real \<Rightarrow> fval" where
  "inf_of_sign c = (if c > 0 then PosInf else if c < 0 then NegInf else NaN)"

fun fmul :: "fval \<Rightarrow> fval \<Rightarrow> fval" where
  "fmul NaN _ = NaN"
| "fmul _ NaN = NaN"
| "fmul (Num a) (Num b) = Num (a * b)"
| "fmul a b = inf_of_sign (fsgn a * fsgn b)"

fun fdiv :: "fval \<Rightarrow> fval \<Rightarrow> fval" where
  "fdiv NaN _ = NaN"
| "fdiv _ NaN = NaN"
| "fdiv (Num a) (Num b) = (if b = 0 then inf_of_sign (sgn a) else Num (a / b))"
| "fdiv (Num a) _ = Num 0"
| "fdiv a (Num b) = inf_of_sign (fsgn a * (if b = 0 then 1 else sgn b))"
| "fdiv _ _ = NaN"

fun fsqrt :: "fval \<Rightarrow> fval" where
  "fsqrt (Num a) = (if a < 0 then NaN else Num (sqrt a))"
| "fsqrt PosInf = PosInf"
| "fsqrt _ = NaN"

text \<open>The comparison \<^verbatim>\<open><\<close>: false whenever a NaN takes part.\<close>

fun flt :: "fval \<Rightarrow> fval \<Rightarrow> bool" where
  "flt NaN _ = False"
| "flt _ NaN = False"
| "flt (Num a) (Num b) = (a < b)"
| "flt NegInf b = (b \<noteq> NegInf)"
| "flt a PosInf = (a \<noteq> PosInf)"
| "flt _ _ = False"

text \<open>
  \<^verbatim>\<open>torch.cat([w.view(-1) for w in dw]).norm()\<close>: the Euclidean norm of all entries.
\<close>

definition cat_norm :: "tensor list \<Rightarrow> fval" where
  "cat_norm dw = fsqrt (foldl fadd (Num 0) (map (\<lambda>v. fmul v v) (concat dw)))"

subsection \<open>The unrolled architecture gradient (\<^verbatim>\<open>DartsTrainer._unrolled_backward\<close>)\<close>

text \<open>
  The trainer's state as the routine sees it. A tensor object is an address; \<^verbatim>\<open>heap\<close>
  holds its data and \<^verbatim>\<open>grad\<close> its \<^verbatim>\<open>.grad\<close> field; addresses from \<^verbatim>\<open>next_addr\<close> on are
  free, and a new tensor (a copy, or the result of an expression) takes the next one.
  \<^verbatim>\<open>model_parameters\<close> is what \<^verbatim>\<open>self.model.parameters()\<close> yields and \<^verbatim>\<open>nas_alphas\<close> is
  \<^verbatim>\<open>[c.alpha for _, c in self.nas_modules]\<close>. Of the live optimizer the routine reads
  \<^verbatim>\<open>param_groups[0]\<close> and, per parameter, \<^verbatim>\<open>state[w].get('momentum_buffer', 0.)\<close>.
  \<^verbatim>\<open>warnings\<close> collects what \<^verbatim>\<open>logger.warning\<close> is given.
\<close>

record trainer =
  heap :: "addr \<Rightarrow> tensor"
  next_addr :: addr
  grad :: "addr \<Rightarrow> tensor option"
  model_parameters :: "addr list"
  nas_alphas :: "addr list"
  opt_lr :: real
  opt_momentum :: real
  opt_weight_decay :: real
  momentum_buffer :: "addr \<Rightarrow> tensor option"
  warnings :: "string list"

text \<open>
  \<^verbatim>\<open>torch.autograd.grad\<close> on the loss of a batch, as a function of the values the model's
  parameters hold when the loss is computed: the gradient of the training loss with
  respect to the model's parameters, of the validation loss with respect to
  \<^verbatim>\<open>w_model + w_ctrl\<close>, and of the training loss with respect to the architecture weights
  (the number says which of the two calls it is: a forward pass may draw random numbers).
  Each gradient has the shape of the tensor it is taken with respect to.
\<close>

record autograd =
  grad_train_model :: "tensor list \<Rightarrow> tensor list"
  grad_valid :: "tensor list \<Rightarrow> tensor list"
  grad_train_alpha :: "nat \<Rightarrow> tensor list \<Rightarrow> tensor list"

definition read_parameters :: "trainer \<Rightarrow> tensor list" where
  "read_parameters s = map (heap s) (model_parameters s)"

text \<open>A new tensor object with the given data.\<close>

definition alloc :: "tensor \<Rightarrow> trainer \<Rightarrow> trainer" where
  "alloc t s = s\<lparr>heap := (heap s)(next_addr s := t), next_addr := Suc (next_addr s)\<rparr>"

text \<open>
  \<^verbatim>\<open>copy.deepcopy(tuple(self.model.parameters()))\<close>: one new tensor per parameter, with the
  parameter's data; the result is the state and the tuple of the copies.
\<close>

fun deepcopy :: "addr list \<Rightarrow> trainer \<Rightarrow> trainer \<times> addr list" where
  "deepcopy [] s = (s, [])"
| "deepcopy (a # as) s =
     (let (s', bs) = deepcopy as (alloc (heap s a) s) in (s', next_addr s # bs))"

text \<open>
  The expression \<^verbatim>\<open>w - lr * (momentum * m + g + weight_decay * w)\<close>, where \<^verbatim>\<open>m\<close> is the
  momentum buffer or, when there is none, the float \<^verbatim>\<open>0.\<close>.
\<close>

definition virtual_step :: "real \<Rightarrow> real \<Rightarrow> real \<Rightarrow> tensor option \<Rightarrow> tensor \<Rightarrow> tensor \<Rightarrow> tensor" where
  "virtual_step lr momentum weight_decay m w g =
     (let mg = (case m of
                  None \<Rightarrow> map (\<lambda>gi. fadd (Num (momentum * 0)) gi) g
                | Some mt \<Rightarrow> map2 (\<lambda>mi gi. fadd (fmul (Num momentum) mi) gi) mt g)
      in map2 (\<lambda>wi ti. fsub wi (fmul (Num lr) (fadd ti (fmul (Num weight_decay) wi)))) w mg)"

text \<open>
  The loop of \<^verbatim>\<open>_compute_virtual_model\<close>. In
  \<^verbatim>\<open>for w, g in zip(self.model.parameters(), gradients): ... w = w - lr * (...)\<close>
  the right-hand side is a new tensor, and the assignment binds the loop variable \<^verbatim>\<open>w\<close>
  to it: nothing is written into the parameter that \<^verbatim>\<open>w\<close> named before.
\<close>

fun virtual_loop :: "real \<Rightarrow> real \<Rightarrow> real \<Rightarrow> addr list \<Rightarrow> tensor list \<Rightarrow> trainer \<Rightarrow> trainer" where
  "virtual_loop lr momentum weight_decay (w # ws) (g # gs) s =
     virtual_loop lr momentum weight_decay ws gs
       (alloc (virtual_step lr momentum weight_decay (momentum_buffer s w) (heap s w) g) s)"
| "virtual_loop lr momentum weight_decay _ _ s = s"

definition compute_virtual_model :: "autograd \<Rightarrow> real \<Rightarrow> real \<Rightarrow> real \<Rightarrow> trainer \<Rightarrow> trainer" where
  "compute_virtual_model ag lr momentum weight_decay s =
     (let gradients = grad_train_model ag (read_parameters s)
      in virtual_loop lr momentum weight_decay (model_parameters s) gradients s)"

text \<open>\<^verbatim>\<open>_restore_weights\<close>: \<^verbatim>\<open>param.copy_(backup)\<close> writes into the parameter.\<close>

fun copy_loop :: "addr list \<Rightarrow> addr list \<Rightarrow> trainer \<Rightarrow> trainer" where
  "copy_loop (p # ps) (b # bs) s = copy_loop ps bs (s\<lparr>heap := (heap s)(p := heap s b)\<rparr>)"
| "copy_loop _ _ s = s"

definition restore_weights :: "addr list \<Rightarrow> trainer \<Rightarrow> trainer" where
  "restore_weights backup_params s = copy_loop (model_parameters s) backup_params s"

text \<open>The inner loop of \<^verbatim>\<open>_compute_hessian\<close>: \<^verbatim>\<open>p += e * d\<close> writes into the parameter.\<close>

fun perturb :: "fval \<Rightarrow> addr list \<Rightarrow> tensor list \<Rightarrow> trainer \<Rightarrow> trainer" where
  "perturb e (p # ps) (d # ds) s =
     perturb e ps ds (s\<lparr>heap := (heap s)(p := map2 (\<lambda>pi di. fadd pi (fmul e di)) (heap s p) d)\<rparr>)"
| "perturb e _ _ s = s"

text \<open>
  \<^verbatim>\<open>_compute_hessian(backup_params, dw, data)\<close>; the result is the state it leaves and the
  list \<^verbatim>\<open>hessian\<close>. The warning is logged without the number that the code formats into
  it.
\<close>

definition compute_hessian ::
  "autograd \<Rightarrow> addr list \<Rightarrow> tensor list \<Rightarrow> trainer \<Rightarrow> trainer \<times> tensor list" where
  "compute_hessian ag backup_params dw s =
     (let s1 = restore_weights backup_params s;
          norm = cat_norm dw;
          eps = fdiv (Num (1 / 100)) norm;
          s2 = (if flt norm (Num (1 / 10 ^ 8))
                then s1\<lparr>warnings := warnings s1 @ [''In computing hessian, norm is smaller than 1E-8'']\<rparr>
                else s1);
          s3 = perturb eps (model_parameters s2) dw s2;
          dalpha_pos = grad_train_alpha ag 0 (read_parameters s3);
          s4 = perturb (fmul (Num (- 2)) eps) (model_parameters s3) dw s3;
          dalpha_neg = grad_train_alpha ag 1 (read_parameters s4);
          hessian = map2 (\<lambda>p n. map2 (\<lambda>pi ni. fdiv (fsub pi ni) (fmul (Num 2) eps)) p n)
                      dalpha_pos dalpha_neg
      in (s4, hessian))"

text \<open>
  The loop \<^verbatim>\<open>for param, d, h in zip(w_ctrl, d_ctrl, hessian): param.grad = d - lr * h\<close>.
\<close>

fun assign_grads :: "real \<Rightarrow> addr list \<Rightarrow> tensor list \<Rightarrow> tensor list \<Rightarrow> trainer \<Rightarrow> trainer" where
  "assign_grads lr (param # ps) (d # ds) (h # hs) s =
     assign_grads lr ps ds hs
       (s\<lparr>grad := (grad s)(param \<mapsto> map2 (\<lambda>di hi. fsub di (fmul (Num lr) hi)) d h)\<rparr>)"
| "assign_grads lr _ _ _ s = s"

text \<open>
  \<^verbatim>\<open>_unrolled_backward(train_data, valid_data)\<close>, as the state it leaves (the validation
  losses it returns are those of the forward pass that \<^verbatim>\<open>grad_valid\<close> differentiates).
\<close>

definition unrolled_backward :: "autograd \<Rightarrow> trainer \<Rightarrow> trainer" where
  "unrolled_backward ag s =
     (let (s1, backup_params) = deepcopy (model_parameters s) s;
          lr = opt_lr s1;
          momentum = opt_momentum s1;
          weight_decay = opt_weight_decay s1;
          s2 = compute_virtual_model ag lr momentum weight_decay s1;
          w_model = model_parameters s2;
          w_ctrl = nas_alphas s2;
          w_grads = grad_valid ag (read_parameters s2);
          d_model = take (length w_model) w_grads;
          d_ctrl = drop (length w_model) w_grads;
          (s3, hessian) = compute_hessian ag backup_params d_model s2;
          s4 = assign_grads lr w_ctrl d_ctrl hessian s3
      in restore_weights backup_params s4)"

text \<open>
  For stating what the routine computes on finite values: a list of real tensors as
  tensors, \<open>w + \<epsilon> d\<close> on lists of real tensors, the Euclidean norm of all entries of a list
  of real tensors, and the values the routine's local variables \<^verbatim>\<open>w_grads\<close> and \<^verbatim>\<open>hessian\<close>
  take.
\<close>

definition finite_tensors :: "real list list \<Rightarrow> tensor list" where
  "finite_tensors ws = map (map Num) ws"

definition axpy :: "real \<Rightarrow> real list list \<Rightarrow> real list list \<Rightarrow> real list list" where
  "axpy e ws ds = map2 (\<lambda>w d. map2 (\<lambda>wi di. wi + e * di) w d) ws ds"

definition euclidean_norm :: "real list list \<Rightarrow> real" where
  "euclidean_norm ds = sqrt (\<Sum>x\<leftarrow>concat ds. x * x)"

definition local_w_grads :: "autograd \<Rightarrow> trainer \<Rightarrow> tensor list" where
  "local_w_grads ag s =
     (let (s1, backup_params) = deepcopy (model_parameters s) s;
          s2 = compute_virtual_model ag (opt_lr s1) (opt_momentum s1) (opt_weight_decay s1) s1
      in grad_valid ag (read_parameters s2))"

definition local_hessian :: "autograd \<Rightarrow> trainer \<Rightarrow> tensor list" where
  "local_hessian ag s =
     (let (s1, backup_params) = deepcopy (model_parameters s) s;
          s2 = compute_virtual_model ag (opt_lr s1) (opt_momentum s1) (opt_weight_decay s1) s1;
          d_model = take (length (model_parameters s2)) (grad_valid ag (read_parameters s2))
      in snd (compute_hessian ag backup_params d_model s2))"

text \<open>
  The state in which \<^verbatim>\<open>_compute_hessian\<close> hands the trainer back to the routine, before
  the routine restores the weights.
\<close>

definition hessian_state :: "autograd \<Rightarrow> trainer \<Rightarrow> trainer" where
  "hessian_state ag s =
     (let (s1, backup_params) = deepcopy (model_parameters s) s;
          s2 = compute_virtual_model ag (opt_lr s1) (opt_momentum s1) (opt_weight_decay s1) s1;
          d_model = take (length (model_parameters s2)) (grad_valid ag (read_parameters s2))
      in fst (compute_hessian ag backup_params d_model s2))"

text \<open>
  The fields of the state that no step of the routine writes: the parameter lists and the
  optimizer; the allocation frontier only grows.
\<close>

definition frame :: "trainer \<Rightarrow> trainer \<Rightarrow> bool" where
  "frame s s' \<longleftrightarrow>
     model_parameters s' = model_parameters s \<and> nas_alphas s' = nas_alphas s
     \<and> opt_lr s' = opt_lr s \<and> opt_momentum s' = opt_momentum s
     \<and> opt_weight_decay s' = opt_weight_decay s \<and> momentum_buffer s' = momentum_buffer s
     \<and> next_addr s \<le> next_addr s'"

text \<open>
  A small trainer for trying the routine: a model with one weight tensor (address 0) and
  one architecture weight (address 1), both among the model's parameters, a learning rate
  of 1/10, no momentum and no weight decay; the training loss has gradient 1 in the
  weight, and the gradient of the training loss in the architecture weight is the
  weight's first entry.
\<close>

definition example_trainer :: trainer where
  "example_trainer =
     \<lparr>heap = (\<lambda>a. if a = 0 then [Num 1] else [Num 2]), next_addr = 2, grad = (\<lambda>a. None),
      model_parameters = [0, 1], nas_alphas = [1],
      opt_lr = 1 / 10, opt_momentum = 0, opt_weight_decay = 0,
      momentum_buffer = (\<lambda>a. None), warnings = []\<rparr>"

definition example_autograd :: autograd where
  "example_autograd =
     \<lparr>grad_train_model = (\<lambda>ws. [[Num 1], [Num 0]]),
      grad_valid = (\<lambda>ws. [[Num 3], [Num 4], [Num 5]]),
      grad_train_alpha = (\<lambda>k ws. [take 1 (hd ws)])\<rparr>"

text \<open>
  A model of which the example trainer's parameters are the parameters: an embedding
  weight (address 0) and an operation choice, wrapped, over a skip connection; the
  wrapper's \<^verbatim>\<open>alpha\<close> is the tensor at address 1.
\<close>

definition example_model :: module where
  "example_model =
     Module Op [(''embedding'', 0)]
       [(''layer'', DartsLayerChoice_module 1 [(''skipconnect'', Module Op [] [])])]"

text \<open>
  Gradients for the example trainer of a training loss \<open>w + \<alpha>\<^sup>2 / 2\<close>, in which the weight
  \<open>w\<close> and the architecture weight \<open>\<alpha>\<close> do not interact (its gradient is 1 in \<open>w\<close>
  and \<open>\<alpha>\<close> in \<open>\<alpha>\<close>, whatever \<open>w\<close> is), and of a validation loss with gradient 3 in
  \<open>w\<close> and 4 in \<open>\<alpha>\<close>.
\<close>

definition separable_autograd :: autograd where
  "separable_autograd =
     \<lparr>grad_train_model = (\<lambda>ws. [Num 1] # take 1 (drop 1 ws)),
      grad_valid = (\<lambda>ws. [[Num 3], [Num 4], [Num 4]]),
      grad_train_alpha = (\<lambda>k ws. take 1 (drop 1 ws))\<rparr>"

section \<open>Theorems\<close>

subsection \<open>The decay scheduler\<close>

lemma step_decay_type:
  "DecayScheduler_step s = Inr s' \<Longrightarrow> decay_type s' = decay_type s"
  by (auto simp: DecayScheduler_step_def Let_def split: if_splits)

lemma step_fields:
  "DecayScheduler_step s = Inr s' \<Longrightarrow>
     base_weight s' = base_weight s \<and> steps s' = steps s \<and> cnt s' = cnt s + 1 \<and>
     DecayScheduler.more s' = DecayScheduler.more s"
  by (auto simp: DecayScheduler_step_def Let_def split: if_splits)

text \<open>One step depends on the scheduler only through every field but the weight.\<close>

lemma step_ignores_weight:
  "DecayScheduler_step (s\<lparr>weight := w\<rparr>) = DecayScheduler_step s"
  by (simp add: DecayScheduler_step_def Let_def)

lemma advance_Suc_right:
  "advance (Suc k) s =
     (case advance k s of Inl e \<Rightarrow> Inl e | Inr s' \<Rightarrow> DecayScheduler_step s')"
proof (induction k arbitrary: s)
  case 0
  show ?case by (simp split: sum.splits)
next
  case (Suc k)
  show ?case
  proof (cases "DecayScheduler_step s")
    case (Inl e)
    then show ?thesis by simp
  next
    case (Inr s1)
    have "advance (Suc (Suc k)) s = advance (Suc k) s1"
      using Inr by simp
    also have "\<dots> = (case advance k s1 of Inl e \<Rightarrow> Inl e | Inr s' \<Rightarrow> DecayScheduler_step s')"
      by (rule Suc.IH)
    also have "advance k s1 = advance (Suc k) s"
      using Inr by simp
    finally show ?thesis .
  qed
qed

lemma advance_cnt:
  "advance k s = Inr s' \<Longrightarrow>
     cnt s' = cnt s + int k \<and> base_weight s' = base_weight s \<and> steps s' = steps s \<and>
     decay_type s' = decay_type s \<and> DecayScheduler.more s' = DecayScheduler.more s"
proof (induction k arbitrary: s)
  case 0
  then show ?case by simp
next
  case (Suc k)
  from Suc.prems obtain s1 where s1: "DecayScheduler_step s = Inr s1" and r: "advance k s1 = Inr s'"
    by (auto split: sum.splits)
  from Suc.IH [OF r] step_fields [OF s1] step_decay_type [OF s1] show ?case by simp
qed

text \<open>A step that raises does so whatever the counter is.\<close>

lemma step_raises_iff:
  "(\<exists>e. DecayScheduler_step s = Inl e) \<longleftrightarrow>
     steps s = 0 \<and> decay_type s \<in> {''cosine'', ''slow_cosine'', ''linear''}"
  by (auto simp: DecayScheduler_step_def Let_def)

lemma step_error_is_zero_division:
  "DecayScheduler_step s = Inl e \<Longrightarrow> e = ZeroDivisionError"
  by (auto simp: DecayScheduler_step_def Let_def split: if_splits)

lemma step_congruent:
  assumes "cnt a = cnt b" "base_weight a = base_weight b" "steps a = steps b"
    "decay_type a = decay_type b" "DecayScheduler.more a = DecayScheduler.more b"
  shows "DecayScheduler_step a = DecayScheduler_step b"
proof -
  have "a\<lparr>weight := 0\<rparr> = b\<lparr>weight := 0\<rparr>"
    using assms by (cases a, cases b) simp
  then have "DecayScheduler_step (a\<lparr>weight := 0\<rparr>) = DecayScheduler_step (b\<lparr>weight := 0\<rparr>)"
    by simp
  then show ?thesis by (simp only: step_ignores_weight)
qed

text \<open>
  C8. For every \<open>k \<ge> 1\<close> and every decay type, advancing the scheduler \<open>k\<close> times after a
  reset ends with the same weight as the interrupted run: reset, \<open>k - 1\<close> advances, then a
  scheduler reset afresh in the resuming process (of the same decay type), its counter set
  to \<open>k - 1\<close> from the resumed epoch index, and one more advance. The two runs end in the
  same scheduler state, or both raise the same exception (a step count of one makes every
  decaying type divide by zero at the first advance of either run).
\<close>

theorem decay_resume_equivalence:
  assumes "1 \<le> k" and "decay_type s' = decay_type s"
  shows "final_weight (advance k (reset s bw st)) = final_weight (interrupted_run k s s' bw st)
       \<and> advance k (reset s bw st) = interrupted_run k s s' bw st"
proof -
  obtain j where k: "k = Suc j"
    using assms(1) by (cases k) auto
  have "advance k (reset s bw st) = interrupted_run k s s' bw st"
  proof (cases "advance j (reset s bw st)")
    case (Inl e)
    have "advance k (reset s bw st) = Inl e"
      by (simp only: k advance_Suc_right Inl sum.case)
    moreover have "interrupted_run k s s' bw st = Inl e"
      using Inl by (simp add: interrupted_run_def k)
    ultimately show ?thesis by simp
  next
    case (Inr sj)
    note f = advance_cnt [OF Inr]
    have "advance k (reset s bw st) = DecayScheduler_step sj"
      by (simp only: k advance_Suc_right Inr sum.case)
    moreover have "interrupted_run k s s' bw st = resume_decay (int k - 1) (reset s' bw st)"
      using Inr by (simp add: interrupted_run_def k)
    moreover have "resume_decay (int k - 1) (reset s' bw st) = DecayScheduler_step sj"
      unfolding resume_decay_def Let_def
      by (rule step_congruent) (simp_all add: f reset_def k assms(2))
    ultimately show ?thesis by simp
  qed
  then show ?thesis by simp
qed

theorem decay_resume_equivalence_witness:
  "(1::nat) \<le> 3
   \<and> decay_type (DecayScheduler_init 1 15 ''linear'') = decay_type (DecayScheduler_init 1 15 ''linear'')
   \<and> final_weight (advance 3 (reset (DecayScheduler_init 1 15 ''linear'') 1 10)) = Inr (2 / 3)
   \<and> final_weight (interrupted_run 3 (DecayScheduler_init 1 15 ''linear'')
         (DecayScheduler_init 1 15 ''linear'') 1 10) = Inr (2 / 3)"
proof -
  have w: "final_weight (advance 3 (reset (DecayScheduler_init 1 15 ''linear'') 1 10)) = Inr (2 / 3)"
    by (simp add: final_weight_def numeral_3_eq_3 DecayScheduler_step_def reset_def
        DecayScheduler_init_def)
  from decay_resume_equivalence [of 3 "DecayScheduler_init 1 15 ''linear''"
      "DecayScheduler_init 1 15 ''linear''" 1 10] w
  show ?thesis by simp
qed

subsection \<open>The NaN check of the model step\<close>

lemma model_step_nan:
  "combined_loss e ls sim = TensorVal NaN \<Longrightarrow>
     model_step e c ls sim
       = ([ZeroGradModel] @ (if e \<ge> 5 then [ZeroGradExpert] else []), Some ValueError)"
  by (simp add: model_step_def check_nan_def isnan_def Let_def)

lemma model_step_not_nan:
  "combined_loss e ls sim = TensorVal x \<Longrightarrow> x \<noteq> NaN \<Longrightarrow>
     model_step e c ls sim
       = ([ZeroGradModel] @ (if e \<ge> 5 then [ZeroGradExpert] else []) @ [Backward]
            @ (if c then [ClipModel, ClipExpert] else []) @ [StepModel]
            @ (if e \<ge> 5 then [StepExpert] else []), None)"
  by (simp add: model_step_def check_nan_def isnan_def Let_def)

lemma combined_loss_int:
  "combined_loss e ls sim = PyInt i \<Longrightarrow> \<not> e \<ge> 5"
  by (auto simp add: combined_loss_def loss_add_def Let_def split: loss_value.splits)

lemma model_step_int:
  "combined_loss e ls sim = PyInt i \<Longrightarrow>
     model_step e c ls sim = ([ZeroGradModel], Some TypeError)"
  using combined_loss_int [of e ls sim i]
  by (simp add: model_step_def check_nan_def Let_def)

text \<open>
  C7, as the code has it. The model step raises \<^verbatim>\<open>ValueError\<close> exactly when the combined
  training loss (with the auxiliary loss added from epoch 5 on) is a NaN tensor; it then
  raises before \<^verbatim>\<open>backward\<close> and before any optimizer step. A loss tensor that is not NaN,
  an infinite one included, raises nothing: it is propagated backward, the model
  optimizer steps on it, and from epoch 5 on the expert optimizer as well. (The sum of
  an empty tuple of losses is no tensor, and the check itself fails on it with a
  \<^verbatim>\<open>TypeError\<close>, again before \<^verbatim>\<open>backward\<close>.)
\<close>

theorem check_nan_only_nan:
  "(snd (model_step e c ls sim) = Some ValueError \<longleftrightarrow> combined_loss e ls sim = TensorVal NaN)
   \<and> (combined_loss e ls sim = TensorVal NaN \<longrightarrow>
        Backward \<notin> set (fst (model_step e c ls sim))
        \<and> StepModel \<notin> set (fst (model_step e c ls sim))
        \<and> StepExpert \<notin> set (fst (model_step e c ls sim)))
   \<and> (\<forall>x. combined_loss e ls sim = TensorVal x \<and> x \<noteq> NaN \<longrightarrow>
        snd (model_step e c ls sim) = None
        \<and> Backward \<in> set (fst (model_step e c ls sim))
        \<and> StepModel \<in> set (fst (model_step e c ls sim))
        \<and> (e \<ge> 5 \<longrightarrow> StepExpert \<in> set (fst (model_step e c ls sim)))
        \<and> model_step e c ls sim
            = ([ZeroGradModel] @ (if e \<ge> 5 then [ZeroGradExpert] else []) @ [Backward]
                 @ (if c then [ClipModel, ClipExpert] else []) @ [StepModel]
                 @ (if e \<ge> 5 then [StepExpert] else []), None))
   \<and> (\<forall>i. combined_loss e ls sim = PyInt i \<longrightarrow>
        model_step e c ls sim = ([ZeroGradModel], Some TypeError))"
proof (cases "combined_loss e ls sim")
  case (PyInt i)
  with model_step_int [of e ls sim i c] show ?thesis by simp
next
  case (TensorVal x)
  show ?thesis
  proof (cases "x = NaN")
    case True
    with TensorVal model_step_nan [of e ls sim c] show ?thesis by simp
  next
    case False
    with TensorVal model_step_not_nan [of e ls sim x c] show ?thesis by simp
  qed
qed

theorem check_nan_only_nan_witness:
  "combined_loss 7 (Tuple [Num 1, PosInf]) NegInf = TensorVal NaN
   \<and> model_step 7 True (Tuple [Num 1, PosInf]) NegInf
       = ([ZeroGradModel, ZeroGradExpert], Some ValueError)
   \<and> combined_loss 6 (Tuple [Num 1, Num 2]) NegInf = TensorVal NegInf
   \<and> model_step 6 True (Tuple [Num 1, Num 2]) NegInf
       = ([ZeroGradModel, ZeroGradExpert, Backward, ClipModel, ClipExpert, StepModel,
           StepExpert], None)
   \<and> combined_loss 0 (Tuple []) NaN = PyInt 0
   \<and> model_step 0 True (Tuple []) NaN = ([ZeroGradModel], Some TypeError)"
proof -
  have a: "combined_loss 7 (Tuple [Num 1, PosInf]) NegInf = TensorVal NaN"
    by (simp add: combined_loss_def preds_loss_def loss_add_def)
  have b: "combined_loss 6 (Tuple [Num 1, Num 2]) NegInf = TensorVal NegInf"
    by (simp add: combined_loss_def preds_loss_def loss_add_def)
  have c: "combined_loss 0 (Tuple []) NaN = PyInt 0"
    by (simp add: combined_loss_def preds_loss_def)
  have d: "model_step 7 True (Tuple [Num 1, PosInf]) NegInf
       = ([ZeroGradModel, ZeroGradExpert], Some ValueError)"
    using a by (simp add: model_step_def check_nan_def isnan_def)
  from check_nan_only_nan [of 6 True "Tuple [Num 1, Num 2]" NegInf]
    check_nan_only_nan [of 7 True "Tuple [Num 1, PosInf]" NegInf]
    check_nan_only_nan [of 0 True "Tuple []" NaN] a b c d
  show ?thesis by simp
qed

text \<open>
  C7 as stated fails: an infinite training loss is non-finite, yet the model step raises
  nothing and goes on to \<^verbatim>\<open>backward\<close> and the optimizer step.
\<close>

theorem check_nan_infinite_counterexample:
  "combined_loss 0 (Tuple [PosInf]) (Num 0) = TensorVal PosInf
   \<and> non_finite PosInf
   \<and> model_step 0 False (Tuple [PosInf]) (Num 0)
       = ([ZeroGradModel, Backward, StepModel], None)"
  by (simp add: non_finite_def combined_loss_def preds_loss_def model_step_def
      check_nan_def isnan_def)

subsection \<open>The auxiliary diversity loss\<close>






lemma length_softmax: "length (softmax xs) = length xs"
  by (simp add: softmax_def)















subsection \<open>Weight sharing between choice wrappers of one label\<close>

lemma look_hit:
  "map_of d (name m) = Some a \<Longrightarrow> look d ((l, m) # ms) = look d ms"
  by (rule ext) (auto simp: look_def split: option.splits)

lemma look_miss:
  "map_of d (name m) = None \<Longrightarrow> look d ((l, m) # ms) = look (d @ [(name m, alpha m)]) ms"
  by (rule ext) (auto simp: look_def map_add_def split: option.splits)

lemma look_self_hit: "map_of d (name m) = Some a \<Longrightarrow> look d ms (name m) = Some a"
  by (simp add: look_def)

lemma look_self_miss:
  "map_of d (name m) = None \<Longrightarrow> look (d @ [(name m, alpha m)]) ms (name m) = Some (alpha m)"
  by (simp add: look_def map_add_def)

lemma share_result:
  "share_ctrl_params tsize ms d = Inr (ms', d') \<Longrightarrow>
     map fst ms' = map fst ms \<and> map (name \<circ> snd) ms' = map (name \<circ> snd) ms
     \<and> map_of d' = look d ms
     \<and> map (alpha \<circ> snd) ms' = map (\<lambda>(l, m). the (look d ms (name m))) ms"
proof (induction ms arbitrary: d ms' d')
  case Nil
  then show ?case by (auto simp: look_def split: option.splits)
next
  case (Cons p ms)
  obtain l m where p: "p = (l, m)" by (cases p)
  show ?case
  proof (cases "map_of d (name m)")
    case None
    from Cons.prems obtain ms1 where r: "share_ctrl_params tsize ms (d @ [(name m, alpha m)]) = Inr (ms1, d')"
      and ms': "ms' = (l, m) # ms1"
      by (auto simp: p None split: sum.splits)
    from Cons.IH [OF r] show ?thesis
      by (simp add: ms' p look_miss [OF None] look_self_miss [OF None])
  next
    case (Some a)
    from Cons.prems obtain ms1 where r: "share_ctrl_params tsize ms d = Inr (ms1, d')"
      and ms': "ms' = (l, m\<lparr>alpha := a\<rparr>) # ms1"
      by (auto simp: p Some split: sum.splits if_splits)
    from Cons.IH [OF r] show ?thesis
      by (simp add: ms' p look_hit [OF Some] look_self_hit [OF Some])
  qed
qed

lemma share_succeeds_iff:
  "(\<exists>r. share_ctrl_params tsize ms d = Inr r) \<longleftrightarrow>
     list_all (\<lambda>(l, m). tsize (alpha m) = tsize (the (look d ms (name m)))) ms"
proof (induction ms arbitrary: d)
  case Nil
  show ?case by simp
next
  case (Cons p ms)
  obtain l m where p: "p = (l, m)" by (cases p)
  show ?case
  proof (cases "map_of d (name m)")
    case None
    show ?thesis
      using Cons.IH [of "d @ [(name m, alpha m)]"]
      by (auto simp: p None look_miss [OF None] look_self_miss [OF None] split: sum.splits)
  next
    case (Some a)
    show ?thesis
      using Cons.IH [of d]
      by (auto simp: p Some look_hit [OF Some] look_self_hit [OF Some] split: sum.splits)
  qed
qed

lemma share_error: "share_ctrl_params tsize ms d = Inl e \<Longrightarrow> e = AssertionError"
proof (induction ms arbitrary: d)
  case Nil
  then show ?case by simp
next
  case (Cons p ms)
  obtain l m where p: "p = (l, m)" by (cases p)
  from Cons.prems Cons.IH show ?case
    by (auto simp: p split: option.splits if_splits sum.splits)
qed

lemma share_keys:
  "share_ctrl_params tsize ms d = Inr (ms', d') \<Longrightarrow> distinct (map fst d) \<Longrightarrow>
     distinct (map fst d') \<and> set (map fst d') = set (map fst d) \<union> set (map (name \<circ> snd) ms)"
proof (induction ms arbitrary: d ms' d')
  case Nil
  then show ?case by auto
next
  case (Cons p ms)
  obtain l m where p: "p = (l, m)" by (cases p)
  show ?case
  proof (cases "map_of d (name m)")
    case None
    then have nin: "name m \<notin> set (map fst d)"
      by (simp add: map_of_eq_None_iff)
    from Cons.prems obtain ms1 where r: "share_ctrl_params tsize ms (d @ [(name m, alpha m)]) = Inr (ms1, d')"
      by (auto simp: p None split: sum.splits)
    from Cons.IH [OF r] Cons.prems(2) nin show ?thesis
      by (auto simp: p)
  next
    case (Some a)
    then have "name m \<in> set (map fst d)"
      by (metis map_of_eq_None_iff option.distinct(1) set_map)
    moreover from Cons.prems obtain ms1 where r: "share_ctrl_params tsize ms d = Inr (ms1, d')"
      by (auto simp: p Some split: sum.splits if_splits)
    ultimately show ?thesis
      using Cons.IH [OF r] Cons.prems(2) by (auto simp: p)
  qed
qed


lemma look_empty: "look [] ms = first_alpha ms"
  by (rule ext) (simp add: look_def)

lemma alpha_by_name:
  assumes a: "map (alpha \<circ> snd) ms' = map (\<lambda>(l, m). f (name m)) ms"
    and n: "map (name \<circ> snd) ms' = map (name \<circ> snd) ms"
    and p: "p \<in> set ms'"
  shows "alpha (snd p) = f (name (snd p))"
proof -
  from p obtain i where i: "i < length ms'" and pi: "p = ms' ! i"
    by (auto simp: in_set_conv_nth)
  have len: "length ms' = length ms"
    using n by (metis length_map)
  have "alpha (snd p) = map (alpha \<circ> snd) ms' ! i"
    using i pi by simp
  also have "\<dots> = f (name (snd (ms ! i)))"
    using i len by (simp add: a case_prod_beta)
  also have "name (snd (ms ! i)) = map (name \<circ> snd) ms ! i"
    using i len by simp
  also have "\<dots> = name (snd p)"
    using i pi by (simp add: n [symmetric])
  finally show ?thesis .
qed

lemma shares_by_labelI:
  assumes "map (alpha \<circ> snd) ms' = map (\<lambda>(l, m). f (name m)) ms"
    and "map (name \<circ> snd) ms' = map (name \<circ> snd) ms"
  shows "shares_by_label ms'"
  unfolding shares_by_label_def list_all_iff
  using alpha_by_name [OF assms] by (auto simp: case_prod_beta)

lemma dict_values_set:
  "distinct (map fst d) \<Longrightarrow> a \<in> set (dict_values d) \<longleftrightarrow> (\<exists>k. map_of d k = Some a)"
  by (force simp: dict_values_def dest: map_of_SomeD map_of_is_SomeI)

lemma first_alpha_dom: "(first_alpha ms k \<noteq> None) \<longleftrightarrow> k \<in> set (map (name \<circ> snd) ms)"
  by (induction ms) auto


lemma dict_set_map_of: "map_of (dict_set d k v) = (map_of d)(k \<mapsto> v)"
  by (induction d) (auto simp: fun_eq_iff)

lemma dict_set_keys:
  "set (map fst (dict_set d k v)) = insert k (set (map fst d))"
proof (induction d)
  case Nil
  show ?case by simp
next
  case (Cons p d)
  obtain k' v' where p: "p = (k', v')" by (cases p)
  show ?case
  proof (cases "k' = k")
    case True
    then show ?thesis by (simp add: p)
  next
    case False
    have "set (map fst (dict_set (p # d) k v)) = insert k' (set (map fst (dict_set d k v)))"
      using False by (simp add: p)
    also have "\<dots> = insert k' (insert k (set (map fst d)))"
      by (simp only: Cons.IH)
    finally show ?thesis by (auto simp: p)
  qed
qed

lemma dict_set_distinct:
  "distinct (map fst d) \<Longrightarrow> distinct (map fst (dict_set d k v))"
proof (induction d)
  case Nil
  show ?case by simp
next
  case (Cons p d)
  obtain k' v' where p: "p = (k', v')" by (cases p)
  from Cons show ?case
    using dict_set_keys [of d k v] by (auto simp: p)
qed

lemma first_alpha_append:
  "first_alpha (xs @ ys) k
     = (case first_alpha xs k of Some a \<Rightarrow> Some a | None \<Rightarrow> first_alpha ys k)"
  by (induction xs) auto

lemma collect_map_of:
  "map_of (collect_expert_params ms d) k
     = (case first_alpha (rev ms) k of Some a \<Rightarrow> Some a | None \<Rightarrow> map_of d k)"
proof (induction ms arbitrary: d)
  case Nil
  show ?case by simp
next
  case (Cons p ms)
  obtain l m where p: "p = (l, m)" by (cases p)
  show ?case
    by (simp add: p Cons.IH dict_set_map_of first_alpha_append split: option.splits)
qed

lemma collect_distinct:
  "distinct (map fst d) \<Longrightarrow> distinct (map fst (collect_expert_params ms d))"
proof (induction ms arbitrary: d)
  case Nil
  then show ?case by simp
next
  case (Cons p ms)
  obtain l m where p: "p = (l, m)" by (cases p)
  from Cons.prems show ?case
    by (simp add: p Cons.IH dict_set_distinct)
qed

lemma collect_keys:
  "set (map fst (collect_expert_params ms d)) = set (map fst d) \<union> set (map (name \<circ> snd) ms)"
proof (induction ms arbitrary: d)
  case Nil
  show ?case by simp
next
  case (Cons p ms)
  obtain l m where p: "p = (l, m)" by (cases p)
  have "set (map fst (collect_expert_params (p # ms) d))
      = set (map fst (dict_set d (name m) (alpha m))) \<union> set (map (name \<circ> snd) ms)"
    by (simp only: p collect_expert_params.simps Cons.IH)
  also have "\<dots> = set (map fst d) \<union> set (map (name \<circ> snd) (p # ms))"
    by (simp only: dict_set_keys) (simp add: p)
  finally show ?case .
qed

lemma collect_empty: "dict_values (collect_expert_params ms []) = [] \<longleftrightarrow> ms = []"
proof -
  have "dict_values (collect_expert_params ms []) = []
      \<longleftrightarrow> set (map fst (collect_expert_params ms [])) = {}"
    by (simp add: dict_values_def)
  also have "\<dots> \<longleftrightarrow> ms = []"
    by (simp only: collect_keys) simp
  finally show ?thesis .
qed

lemma share_empty:
  assumes "share_ctrl_params tsize ms [] = Inr (ms', d)"
  shows "dict_values d = [] \<longleftrightarrow> ms = []"
proof -
  have "dict_values d = [] \<longleftrightarrow> set (map fst d) = {}"
    by (simp add: dict_values_def)
  also have "\<dots> \<longleftrightarrow> ms = []"
    using share_keys [OF assms] by simp
  finally show ?thesis .
qed

text \<open>
  C3. Construction goes through when both kinds of wrappers were collected and every
  operation-level wrapper's tensor has the size of the tensor of the first wrapper with
  its label; it fails with \<^verbatim>\<open>AssertionError\<close> on a size mismatch, and with the
  optimizer's \<^verbatim>\<open>ValueError\<close> when there is no wrapper of one kind. When it goes through,
  any two collected operation-level wrappers with the same label hold the identical
  tensor, namely the tensor of the first wrapper with that label (labels and order of
  the list are kept), and the operation-architecture optimizer receives exactly these
  first tensors, one per label. The loop over the expert-subset wrappers has no such
  rebinding: these wrappers are left as they were collected, and their optimizer
  receives, for each label, the tensor of the last wrapper with it.
\<close>

theorem ctrl_weights_shared_by_label:
  "(case DartsTrainer_init_choices tsize experts nas of
      Inl e \<Rightarrow>
        (if experts = [] then e = ValueError
         else if list_all (\<lambda>(l, m). tsize (alpha m) = tsize (the (first_alpha nas (name m)))) nas
           then e = ValueError \<and> nas = []
         else e = AssertionError)
    | Inr t \<Rightarrow>
        experts \<noteq> [] \<and> nas \<noteq> []
        \<and> list_all (\<lambda>(l, m). tsize (alpha m) = tsize (the (first_alpha nas (name m)))) nas
        \<and> shares_by_label (nas_modules t)
        \<and> map fst (nas_modules t) = map fst nas
        \<and> map (name \<circ> snd) (nas_modules t) = map (name \<circ> snd) nas
        \<and> map (alpha \<circ> snd) (nas_modules t) = map (\<lambda>(l, m). the (first_alpha nas (name m))) nas
        \<and> (\<forall>a. a \<in> set (ctrl_optim_params t) \<longleftrightarrow> (\<exists>k. first_alpha nas k = Some a))
        \<and> length (ctrl_optim_params t) = card (set (map (name \<circ> snd) nas))
        \<and> expert_modules t = experts
        \<and> (\<forall>a. a \<in> set (expert_optim_params t) \<longleftrightarrow> (\<exists>k. first_alpha (rev experts) k = Some a))
        \<and> length (expert_optim_params t) = card (set (map (name \<circ> snd) experts)))"
proof (cases "experts = []")
  case True
  then show ?thesis
    by (simp add: DartsTrainer_init_choices_def Adam_def dict_values_def)
next
  case ne: False
  let ?ep = "collect_expert_params experts []"
  have ad: "Adam (dict_values ?ep) = Inr (dict_values ?ep)"
    using ne collect_empty [of experts] by (simp add: Adam_def)
  have epk: "distinct (map fst ?ep)"
    by (rule collect_distinct) simp
  have evals: "a \<in> set (dict_values ?ep) \<longleftrightarrow> (\<exists>k. first_alpha (rev experts) k = Some a)" for a
  proof -
    have "map_of ?ep k = first_alpha (rev experts) k" for k
      by (simp add: collect_map_of split: option.splits)
    then show ?thesis
      using dict_values_set [OF epk, of a] by simp
  qed
  have "length (dict_values ?ep) = length (map fst ?ep)"
    by (simp add: dict_values_def)
  also have "\<dots> = card (set (map fst ?ep))"
    using epk by (simp only: distinct_card)
  finally have elen: "length (dict_values ?ep) = card (set (map (name \<circ> snd) experts))"
    by (simp only: collect_keys) simp
  show ?thesis
  proof (cases "share_ctrl_params tsize nas []")
    case (Inl e)
    have "\<not> list_all (\<lambda>(l, m). tsize (alpha m) = tsize (the (look [] nas (name m)))) nas"
      using Inl share_succeeds_iff [of tsize nas "[]"] by auto
    then have "\<not> list_all (\<lambda>(l, m). tsize (alpha m) = tsize (the (first_alpha nas (name m)))) nas"
      by (simp add: look_empty)
    with Inl share_error [OF Inl] ne ad show ?thesis
      by (simp add: DartsTrainer_init_choices_def Let_def)
  next
    case (Inr r)
    obtain nas' d where r: "r = (nas', d)" by (cases r)
    note s = Inr [unfolded r]
    note res = share_result [OF s, unfolded look_empty]
    have keys: "distinct (map fst d)" "set (map fst d) = set (map (name \<circ> snd) nas)"
      using share_keys [OF s] by simp_all
    have ok: "list_all (\<lambda>(l, m). tsize (alpha m) = tsize (the (first_alpha nas (name m)))) nas"
      using share_succeeds_iff [of tsize nas "[]"] s by (simp add: look_empty)
    show ?thesis
    proof (cases "nas = []")
      case True
      with s ne ad show ?thesis
        by (simp add: DartsTrainer_init_choices_def Let_def Adam_def dict_values_def)
    next
      case nn: False
      have ad2: "Adam (dict_values d) = Inr (dict_values d)"
        using nn share_empty [OF s] by (simp add: Adam_def)
      have sh: "shares_by_label nas'"
        using res by (intro shares_by_labelI [of nas' "\<lambda>k. the (first_alpha nas k)" nas]) simp_all
      have vals: "a \<in> set (dict_values d) \<longleftrightarrow> (\<exists>k. first_alpha nas k = Some a)" for a
        using dict_values_set [OF keys(1)] res by simp
      have "length (dict_values d) = length (map fst d)"
        by (simp add: dict_values_def)
      also have "\<dots> = card (set (map fst d))"
        using keys(1) by (simp only: distinct_card)
      finally have len: "length (dict_values d) = card (set (map (name \<circ> snd) nas))"
        by (simp only: keys(2))
      show ?thesis
        using ok sh res vals len ne nn evals elen
        by (simp add: DartsTrainer_init_choices_def s ad ad2 Let_def)
    qed
  qed
qed

text \<open>
  A supernet with two expert-subset choices of one label and three operation choices, two
  of them of one label. The operation-level wrappers end up sharing the tensor of the
  first; the expert-subset wrappers keep their own tensors \<^verbatim>\<open>11\<close> and \<^verbatim>\<open>12\<close>, of which the
  optimizer holds the last and \<^verbatim>\<open>export\<close> reads the first. A size mismatch and an empty
  collection end construction.
\<close>

theorem ctrl_weights_shared_by_label_witness:
  "DartsTrainer_init_choices (\<lambda>a. [3])
     [(''task_experts'', \<lparr>name = ''task_experts'', alpha = 11\<rparr>),
      (''task_experts'', \<lparr>name = ''task_experts'', alpha = 12\<rparr>)]
     [(''l'', \<lparr>name = ''l'', alpha = 13\<rparr>), (''k'', \<lparr>name = ''k'', alpha = 14\<rparr>),
      (''l'', \<lparr>name = ''l'', alpha = 15\<rparr>)]
   = Inr \<lparr>expert_modules = [(''task_experts'', \<lparr>name = ''task_experts'', alpha = 11\<rparr>),
                            (''task_experts'', \<lparr>name = ''task_experts'', alpha = 12\<rparr>)],
          nas_modules = [(''l'', \<lparr>name = ''l'', alpha = 13\<rparr>), (''k'', \<lparr>name = ''k'', alpha = 14\<rparr>),
                         (''l'', \<lparr>name = ''l'', alpha = 13\<rparr>)],
          expert_params = [(''task_experts'', 12)],
          expert_optim_params = [12], ctrl_optim_params = [13, 14]\<rparr>
   \<and> shares_by_label [(''l'', \<lparr>name = ''l'', alpha = 13\<rparr>), (''k'', \<lparr>name = ''k'', alpha = 14\<rparr>),
                        (''l'', \<lparr>name = ''l'', alpha = 13\<rparr>)]
   \<and> \<not> shares_by_label [(''task_experts'', \<lparr>name = ''task_experts'', alpha = 11\<rparr>),
                          (''task_experts'', \<lparr>name = ''task_experts'', alpha = 12\<rparr>)]
   \<and> DartsTrainer_export
        \<lparr>expert_modules = [(''task_experts'', \<lparr>name = ''task_experts'', alpha = 11\<rparr>),
                            (''task_experts'', \<lparr>name = ''task_experts'', alpha = 12\<rparr>)],
          nas_modules = [(''l'', \<lparr>name = ''l'', alpha = 13\<rparr>), (''k'', \<lparr>name = ''k'', alpha = 14\<rparr>),
                         (''l'', \<lparr>name = ''l'', alpha = 13\<rparr>)],
          expert_params = [(''task_experts'', 12)],
          expert_optim_params = [12], ctrl_optim_params = [13, 14]\<rparr>
       = [(''l'', 13), (''k'', 14), (''task_experts'', 11)]
   \<and> DartsTrainer_init_choices (\<lambda>a. if a = 15 then [4] else [3])
     [(''task_experts'', \<lparr>name = ''task_experts'', alpha = 11\<rparr>),
      (''task_experts'', \<lparr>name = ''task_experts'', alpha = 12\<rparr>)]
     [(''l'', \<lparr>name = ''l'', alpha = 13\<rparr>), (''k'', \<lparr>name = ''k'', alpha = 14\<rparr>),
      (''l'', \<lparr>name = ''l'', alpha = 15\<rparr>)]
   = Inl AssertionError
   \<and> DartsTrainer_init_choices (\<lambda>a. [3]) []
     [(''l'', \<lparr>name = ''l'', alpha = 13\<rparr>), (''k'', \<lparr>name = ''k'', alpha = 14\<rparr>),
      (''l'', \<lparr>name = ''l'', alpha = 15\<rparr>)]
   = Inl ValueError"
proof -
  let ?experts = "[(''task_experts'', \<lparr>name = ''task_experts'', alpha = 11\<rparr>),
      (''task_experts'', \<lparr>name = ''task_experts'', alpha = 12\<rparr>)]"
  let ?nas = "[(''l'', \<lparr>name = ''l'', alpha = 13\<rparr>), (''k'', \<lparr>name = ''k'', alpha = 14\<rparr>),
      (''l'', \<lparr>name = ''l'', alpha = 15\<rparr>)]"
  let ?t = "\<lparr>expert_modules = ?experts,
          nas_modules = [(''l'', \<lparr>name = ''l'', alpha = 13\<rparr>), (''k'', \<lparr>name = ''k'', alpha = 14\<rparr>),
                         (''l'', \<lparr>name = ''l'', alpha = 13\<rparr>)],
          expert_params = [(''task_experts'', 12)],
          expert_optim_params = [12], ctrl_optim_params = [13, 14]\<rparr>"
  have e: "DartsTrainer_init_choices (\<lambda>a. [3]) ?experts ?nas = Inr ?t"
    by (simp add: DartsTrainer_init_choices_def dict_values_def Adam_def)
  have "shares_by_label (nas_modules ?t)"
    using ctrl_weights_shared_by_label
      [where tsize = "\<lambda>a. [3]" and experts = ?experts and nas = ?nas]
    by (simp only: e sum.case)
  moreover have "\<not> shares_by_label ?experts"
    by (simp add: shares_by_label_def)
  moreover have "DartsTrainer_export ?t = [(''l'', 13), (''k'', 14), (''task_experts'', 11)]"
    by (simp add: DartsTrainer_export_def)
  moreover have "DartsTrainer_init_choices (\<lambda>a. if a = 15 then [4] else [3]) ?experts ?nas
      = Inl AssertionError"
    by (simp add: DartsTrainer_init_choices_def dict_values_def Adam_def)
  moreover have "DartsTrainer_init_choices (\<lambda>a. [3]) [] ?nas = Inl ValueError"
    by (simp add: DartsTrainer_init_choices_def dict_values_def Adam_def)
  ultimately show ?thesis
    using e by simp
qed

subsection \<open>Parameter iteration of the wrappers\<close>

lemma remove_duplicate_filter:
  "remove_duplicate (S \<union> T) xs = filter (\<lambda>(n, a). a \<notin> S) (remove_duplicate T xs)"
proof (induction xs arbitrary: T)
  case Nil
  show ?case by simp
next
  case (Cons x xs)
  obtain n a where x: "x = (n, a)" by (cases x)
  show ?case
  proof (cases "a \<in> S")
    case True
    have "S \<union> insert a T = S \<union> T" using True by auto
    with Cons.IH [of T] Cons.IH [of "insert a T"] True show ?thesis
      by (simp add: x)
  next
    case False
    with Cons.IH [of T] Cons.IH [of "insert a T"] show ?thesis
      by (simp add: x)
  qed
qed

lemma remove_duplicate_memo: "(n, a) \<in> set (remove_duplicate memo xs) \<Longrightarrow> a \<notin> memo \<and> (n, a) \<in> set xs"
  by (induction memo xs rule: remove_duplicate.induct) (auto split: if_splits)

lemma named_members_prefix:
  "(n, a) \<in> set (named_members prefix m) \<Longrightarrow> \<exists>s. n = prefix @ s"
proof (induction prefix m arbitrary: n a rule: named_members.induct)
  case (1 prefix c ps ms)
  from "1.prems" have
    "(n, a) \<in> set (map (\<lambda>(n, a). (prefix @ n, a)) ps)
     \<or> (\<exists>k m. (k, m) \<in> set ms \<and> (n, a) \<in> set (named_members (prefix @ k @ ''.'') m))"
    by auto
  then show ?case
  proof (elim disjE exE conjE)
    assume "(n, a) \<in> set (map (\<lambda>(n, a). (prefix @ n, a)) ps)"
    then show ?thesis by auto
  next
    fix k m
    assume sub: "(k, m) \<in> set ms" "(n, a) \<in> set (named_members (prefix @ k @ ''.'') m)"
    from "1.IH" [OF sub(1) refl sub(2)] obtain s where "n = (prefix @ k @ ''.'') @ s"
      by auto
    then show ?thesis by simp
  qed
qed

lemma filter_id: "\<forall>x\<in>set xs. P x \<Longrightarrow> filter P xs = xs"
  by (induction xs) auto

lemma wrapper_params_aux:
  assumes nm: "named_members [] w = (''alpha'', a) # named_members ''op_choices.'' (Module Op [] ops)"
  shows "wrapper_named_parameters w
     = filter (\<lambda>(n, p). p \<noteq> a) (remove_duplicate {} (named_members ''op_choices.'' (Module Op [] ops)))"
proof -
  let ?X = "named_members ''op_choices.'' (Module Op [] ops)"
  have names: "\<forall>x\<in>set (remove_duplicate {a} ?X). (\<lambda>(n, p). n \<noteq> ''alpha'') x"
  proof
    fix x assume x: "x \<in> set (remove_duplicate {a} ?X)"
    obtain n p where np: "x = (n, p)" by (cases x)
    from x have "(n, p) \<in> set ?X"
      using remove_duplicate_memo [of n p "{a}" ?X] by (simp add: np)
    from named_members_prefix [OF this] show "(\<lambda>(n, p). n \<noteq> ''alpha'') x"
      by (auto simp: np)
  qed
  have "wrapper_named_parameters w = filter (\<lambda>(n, p). n \<noteq> ''alpha'') (remove_duplicate {a} ?X)"
    by (simp add: wrapper_named_parameters_def Module_named_parameters_def nm)
  also have "\<dots> = remove_duplicate {a} ?X"
    by (rule filter_id [OF names])
  also have "\<dots> = filter (\<lambda>(n, p). p \<notin> {a}) (remove_duplicate {} ?X)"
    using remove_duplicate_filter [of "{a}" "{}" ?X] by simp
  finally show ?thesis by simp
qed

lemma layer_members:
  "named_members [] (DartsLayerChoice_module a ops)
     = (''alpha'', a) # named_members ''op_choices.'' (Module Op [] ops)"
  by (simp add: DartsLayerChoice_module_def)

lemma expert_members:
  "named_members [] (DartsExpertChoice_module a ops)
     = (''alpha'', a) # named_members ''op_choices.'' (Module Op [] ops)"
  by (simp add: DartsExpertChoice_module_def)

text \<open>
  C10. \<^verbatim>\<open>named_parameters()\<close> and \<^verbatim>\<open>parameters()\<close> called on a wrapper never yield
  the wrapper's own \<^verbatim>\<open>alpha\<close> tensor: they yield the parameters found below
  \<^verbatim>\<open>op_choices\<close>, each tensor once, under its dotted name, the wrapper's own tensor
  taken out. The methods compare the whole dotted name with \<^verbatim>\<open>'alpha'\<close>, so nothing else
  is taken out: the \<^verbatim>\<open>alpha\<close> of a wrapper nested in a candidate, whose name ends in
  \<^verbatim>\<open>.alpha\<close>, stays in the result, against the methods' docstring
  \<^verbatim>\<open>Drop architecture params\<close>.
\<close>

theorem wrapper_parameters_drop_own_alpha:
  assumes "w = DartsLayerChoice_module a ops \<or> w = DartsExpertChoice_module a ops"
  shows "a \<notin> set (wrapper_parameters w)
       \<and> wrapper_named_parameters w
           = filter (\<lambda>(n, p). p \<noteq> a)
               (remove_duplicate {} (named_members ''op_choices.'' (Module Op [] ops)))"
proof -
  have nm: "named_members [] w = (''alpha'', a) # named_members ''op_choices.'' (Module Op [] ops)"
    using assms layer_members expert_members by auto
  note eq = wrapper_params_aux [OF nm]
  have "a \<notin> set (wrapper_parameters w)"
    by (auto simp: wrapper_parameters_def eq)
  with eq show ?thesis by simp
qed

text \<open>
  An operation-level wrapper over plain operations yields their parameters and not its
  \<^verbatim>\<open>alpha\<close>. An expert-subset wrapper whose expert contains an operation-level wrapper
  (as every expert of the supernet does after \<^verbatim>\<open>replace_layer_choice\<close>) does not yield
  its own \<^verbatim>\<open>alpha\<close>, the tensor \<^verbatim>\<open>10\<close>, but yields the nested wrapper's, the tensor
  \<^verbatim>\<open>11\<close>, which is an architecture weight.
\<close>

theorem wrapper_parameters_drop_own_alpha_witness:
  "wrapper_named_parameters
     (DartsLayerChoice_module 0
        [(''skipconnect'', Module Op [] []),
         (''MLP-16'', Module Op [(''weight'', 1), (''bias'', 2)] [])])
   = [(''op_choices.MLP-16.weight'', 1), (''op_choices.MLP-16.bias'', 2)]
   \<and> 0 \<notin> set (wrapper_parameters
     (DartsLayerChoice_module 0
        [(''skipconnect'', Module Op [] []),
         (''MLP-16'', Module Op [(''weight'', 1), (''bias'', 2)] [])]))
   \<and> 10 \<notin> set (wrapper_parameters
     (DartsExpertChoice_module 10
        [(''expert_0'', Module Op []
           [(''layers'', Module Op []
              [(''0'', DartsLayerChoice_module 11 [(''MLP-16'', Module Op [(''weight'', 12)] [])])])])]))
   \<and> wrapper_named_parameters
     (DartsExpertChoice_module 10
        [(''expert_0'', Module Op []
           [(''layers'', Module Op []
              [(''0'', DartsLayerChoice_module 11 [(''MLP-16'', Module Op [(''weight'', 12)] [])])])])])
   = [(''op_choices.expert_0.layers.0.alpha'', 11),
      (''op_choices.expert_0.layers.0.op_choices.MLP-16.weight'', 12)]
   \<and> wrapper_parameters
     (DartsExpertChoice_module 10
        [(''expert_0'', Module Op []
           [(''layers'', Module Op []
              [(''0'', DartsLayerChoice_module 11 [(''MLP-16'', Module Op [(''weight'', 12)] [])])])])])
   = [11, 12]
   \<and> arch_weights
     (DartsExpertChoice_module 10
        [(''expert_0'', Module Op []
           [(''layers'', Module Op []
              [(''0'', DartsLayerChoice_module 11 [(''MLP-16'', Module Op [(''weight'', 12)] [])])])])])
   = [10, 11]"
proof -
  let ?ops = "[(''skipconnect'', Module Op [] []),
         (''MLP-16'', Module Op [(''weight'', 1), (''bias'', 2)] [])]"
  let ?experts = "[(''expert_0'', Module Op []
           [(''layers'', Module Op []
              [(''0'', DartsLayerChoice_module 11 [(''MLP-16'', Module Op [(''weight'', 12)] [])])])])]"
  have a: "wrapper_named_parameters (DartsLayerChoice_module 0 ?ops)
      = [(''op_choices.MLP-16.weight'', 1), (''op_choices.MLP-16.bias'', 2)]"
    using wrapper_parameters_drop_own_alpha [of "DartsLayerChoice_module 0 ?ops" 0 ?ops]
    by simp
  have b: "0 \<notin> set (wrapper_parameters (DartsLayerChoice_module 0 ?ops))"
    by (rule wrapper_parameters_drop_own_alpha [OF disjI1 [OF refl], THEN conjunct1])
  have c: "10 \<notin> set (wrapper_parameters (DartsExpertChoice_module 10 ?experts))"
    by (rule wrapper_parameters_drop_own_alpha [OF disjI2 [OF refl], THEN conjunct1])
  have d: "wrapper_named_parameters (DartsExpertChoice_module 10 ?experts)
      = [(''op_choices.expert_0.layers.0.alpha'', 11),
         (''op_choices.expert_0.layers.0.op_choices.MLP-16.weight'', 12)]"
    by (simp add: wrapper_named_parameters_def Module_named_parameters_def
        DartsExpertChoice_module_def DartsLayerChoice_module_def)
  have e: "wrapper_parameters (DartsExpertChoice_module 10 ?experts) = [11, 12]"
    by (simp only: wrapper_parameters_def d) simp
  have f: "arch_weights (DartsExpertChoice_module 10 ?experts) = [10, 11]"
    by (simp add: DartsExpertChoice_module_def DartsLayerChoice_module_def)
  show ?thesis
    by (intro conjI a b c d e f)
qed

subsection \<open>Construction under a fixed architecture\<close>

lemma get_fixed_value_pushed:
  "map_of b l = Some v \<Longrightarrow> get_fixed_value (ContextStack_push stack ''fixed'' b) l = Inr v"
  by (simp add: get_fixed_value_def get_current_context_def ContextStack_top_def
      ContextStack_push_def)

lemma create_fixed_module_pushed:
  "map_of b l = Some (FStr x) \<Longrightarrow> map_of cands x = Some m \<Longrightarrow>
     create_fixed_module py_int (ContextStack_push stack ''fixed'' b) (CandDict cands) l = Inr m"
  by (simp add: create_fixed_module_def get_fixed_value_pushed)

text \<open>
  C9. With a fixed architecture that binds the label to \<open>x\<close> pushed on the context stack,
  the constructor call \<^verbatim>\<open>LayerChoice(candidates, label)\<close> returns the candidate named \<open>x\<close>
  itself: the very module the caller passed in, hence with the same output on every
  input, and not a choice node that would select at call time. What the result holds is
  that one module, and its parameters are exactly the candidate's: no module and no
  parameter of a sibling candidate is registered by the construction. (The candidates
  are built by the caller before the call; the construction itself builds nothing.)
\<close>

theorem fixed_layer_choice_is_candidate:
  assumes "map_of b l = Some (FStr x)" and "map_of cands x = Some m"
  shows "LayerChoice_new py_int (ContextStack_push stack ''fixed'' b) (CandDict cands) l pr
           = Inr (Fixed m)
       \<and> held_modules (Fixed m) = [m]
       \<and> held_parameters (Fixed m) = map snd (Module_named_parameters m)"
  using create_fixed_module_pushed [OF assms]
  by (simp add: LayerChoice_new_def held_modules_def held_parameters_def)

theorem fixed_layer_choice_is_candidate_witness:
  "LayerChoice_new (\<lambda>s. None)
     (ContextStack_push (\<lambda>k. []) ''fixed'' [(''bottom_module_layer_0'', FStr ''MLP-64'')])
     (CandDict [(''skipconnect'', Module Op [] []),
                (''MLP-64'', Module Op [(''weight'', 11), (''bias'', 12)] []),
                (''MLP-128'', Module Op [(''weight'', 13), (''bias'', 14)] [])])
     ''bottom_module_layer_0'' None
   = Inr (Fixed (Module Op [(''weight'', 11), (''bias'', 12)] []))
   \<and> held_parameters (Fixed (Module Op [(''weight'', 11), (''bias'', 12)] [])) = [11, 12]"
proof -
  have p: "map snd (Module_named_parameters (Module Op [(''weight'', 11), (''bias'', 12)] [])) = [11, 12]"
    by (simp add: Module_named_parameters_def)
  from fixed_layer_choice_is_candidate [of "[(''bottom_module_layer_0'', FStr ''MLP-64'')]"
      "''bottom_module_layer_0''" "''MLP-64''"
      "[(''skipconnect'', Module Op [] []),
        (''MLP-64'', Module Op [(''weight'', 11), (''bias'', 12)] []),
        (''MLP-128'', Module Op [(''weight'', 13), (''bias'', 14)] [])]"
      "Module Op [(''weight'', 11), (''bias'', 12)] []" "\<lambda>s. None" "\<lambda>k. []" None]
  show ?thesis by (simp add: p)
qed

subsection \<open>The forward pass of an operation choice\<close>

lemma sequence_Inr: "sequence (map Inr vs) = Inr vs"
  by (induction vs) simp_all

lemma enumerate_rows_shape:
  "map length (map (\<lambda>(b, row). map (f b) row) (enumerate n y)) = map length y"
  by (induction y arbitrary: n) simp_all

lemma DropPath_forward_cases:
  assumes "DropPath_forward p tr k y = Inr z"
  shows "z = y \<or> z = map (\<lambda>(b, row). map (\<lambda>v. v / (1 - p) * (if k b then 1 else 0)) row) (enumerate 0 y)"
  using assms unfolding DropPath_forward_def Let_def
  by (simp split: if_splits)

lemma DropPath_forward_shape:
  assumes "DropPath_forward p tr k y = Inr z"
  shows "map length z = map length y"
  using DropPath_forward_cases [OF assms]
proof
  assume "z = y"
  then show ?thesis by simp
next
  assume "z = map (\<lambda>(b, row). map (\<lambda>v. v / (1 - p) * (if k b then 1 else 0)) row) (enumerate 0 y)"
  then show ?thesis by (simp only: enumerate_rows_shape)
qed

lemma DropPath_forward_inactive:
  "\<not> (tr \<and> p > 0) \<Longrightarrow> DropPath_forward p tr k y = Inr y"
  unfolding DropPath_forward_def by (simp only: if_False)

lemma op_results_ok:
  "map (\<lambda>op. op x) ops = map Inr ys \<Longrightarrow>
   map2 (\<lambda>i y. DropPath_forward p tr (masks i) y) [k..<k + length ys] ys = map Inr zs \<Longrightarrow>
   op_results p tr masks k ops x = Inr zs"
proof (induction ops arbitrary: k ys zs)
  case Nil
  then show ?case by simp
next
  case (Cons op ops)
  from Cons.prems(1) obtain y ys' where ys: "ys = y # ys'" and y: "op x = Inr y"
    and rest: "map (\<lambda>op. op x) ops = map Inr ys'"
    by (cases ys) auto
  have "k < k + length ys"
    by (simp add: ys)
  from upt_conv_Cons [OF this]
  have upt: "[k..<k + length ys] = k # [Suc k..<Suc k + length ys']"
    by (simp add: ys)
  have "map2 (\<lambda>i y. DropPath_forward p tr (masks i) y) (k # [Suc k..<Suc k + length ys']) (y # ys')
      = map Inr zs"
    using Cons.prems(2) unfolding upt by (simp only: ys)
  then have c: "DropPath_forward p tr (masks k) y
        # map2 (\<lambda>i y. DropPath_forward p tr (masks i) y) [Suc k..<Suc k + length ys'] ys'
      = map Inr zs"
    by (simp only: zip_Cons_Cons list.map prod.case)
  then obtain z zs' where zs: "zs = z # zs'"
    by (cases zs) simp_all
  from c have z: "DropPath_forward p tr (masks k) y = Inr z"
    and rest2: "map2 (\<lambda>i y. DropPath_forward p tr (masks i) y) [Suc k..<Suc k + length ys'] ys' = map Inr zs'"
    by (simp_all only: zs list.map list.inject)
  from Cons.IH [OF rest rest2] y z show ?case
    by (simp add: zs)
qed

lemma map2_shape:
  "map length a = sh \<Longrightarrow> map length c = sh \<Longrightarrow> map length (map2 (map2 f) a c) = sh"
proof (induction a arbitrary: c sh)
  case Nil
  then show ?case by simp
next
  case (Cons r a)
  then show ?case by (cases c) auto
qed

lemma map2_entry:
  "map length a = map length c \<Longrightarrow> b < length a \<Longrightarrow> j < length (a ! b) \<Longrightarrow>
   map2 (map2 f) a c ! b ! j = f (a ! b ! j) (c ! b ! j)"
proof -
  assume sh: "map length a = map length c" and b: "b < length a" and j: "j < length (a ! b)"
  have lc: "length c = length a" using sh by (metis length_map)
  have "length (c ! b) = length (a ! b)"
    using sh b lc by (metis nth_map)
  then show ?thesis using b j lc by simp
qed

lemma foldl_madd:
  "map length acc = sh \<Longrightarrow> list_all (\<lambda>t. map length t = sh) ts \<Longrightarrow>
   map length (foldl (map2 (map2 (+))) acc ts) = sh
   \<and> (\<forall>b<length sh. \<forall>j<sh ! b.
        foldl (map2 (map2 (+))) acc ts ! b ! j = acc ! b ! j + (\<Sum>t\<leftarrow>ts. t ! b ! (j::nat)) )"
proof (induction ts arbitrary: acc)
  case Nil
  then show ?case by simp
next
  case (Cons t ts)
  have t: "map length t = sh" and ts: "list_all (\<lambda>t. map length t = sh) ts"
    using Cons.prems(2) by simp_all
  have sh': "map length (map2 (map2 (+)) acc t) = sh"
    by (rule map2_shape [OF Cons.prems(1) t])
  note IH = Cons.IH [OF sh' ts]
  have e: "map2 (map2 (+)) acc t ! b ! j = acc ! b ! j + t ! b ! j"
    if "b < length sh" "j < sh ! b" for b j
  proof -
    have "b < length acc" using that Cons.prems(1) by (metis length_map)
    moreover have "j < length (acc ! b)" using that Cons.prems(1) \<open>b < length acc\<close> by (metis nth_map)
    ultimately show ?thesis
      using map2_entry [of acc t b j "(+)"] Cons.prems(1) t by simp
  qed
  show ?case using IH e by (simp add: add.assoc)
qed

lemma zeros_shape: "map length (map (map (\<lambda>_. 0::real)) like) = map length like"
  by (induction like) simp_all

lemma sum_dim0_entries:
  assumes "list_all (\<lambda>t. map length t = map length like) ts"
  shows "map length (sum_dim0 like ts) = map length like
   \<and> (\<forall>b<length like. \<forall>j<length (like ! b).
        sum_dim0 like ts ! b ! j = (\<Sum>t\<leftarrow>ts. t ! b ! j))"
proof -
  note f = foldl_madd [OF zeros_shape assms]
  have "sum_dim0 like ts ! b ! j = (\<Sum>t\<leftarrow>ts. t ! b ! j)"
    if "b < length like" "j < length (like ! b)" for b j
  proof -
    from f that have "sum_dim0 like ts ! b ! j
        = map (map (\<lambda>_. 0)) like ! b ! j + (\<Sum>t\<leftarrow>ts. t ! b ! j)"
      by (simp add: sum_dim0_def)
    then show ?thesis using that by simp
  qed
  then show ?thesis using f by (simp add: sum_dim0_def)
qed

lemma scale_shape: "map length (scale w t) = map length t"
  by (simp add: scale_def)

lemma scale_entry: "b < length t \<Longrightarrow> j < length (t ! b) \<Longrightarrow> scale w t ! b ! j = w * t ! b ! j"
  by (simp add: scale_def)

lemma bzip_same:
  "length xs = length ys \<Longrightarrow> bzip (\<lambda>a b. Inr (f a b)) xs ys = Inr (map2 f xs ys)"
proof -
  assume len: "length xs = length ys"
  then have "sequence (map2 (\<lambda>a b. Inr (f a b)) xs ys) = Inr (map2 f xs ys)"
    by (induction xs ys rule: list_induct2) simp_all
  then show ?thesis using len by (simp add: bzip_def)
qed

lemma tensor_add_same:
  "map length a = map length c \<Longrightarrow> tensor_add a c = Inr (map2 (map2 (+)) a c)"
proof -
  assume sh: "map length a = map length c"
  have len: "length a = length c" using sh by (metis length_map)
  from len sh have "sequence (map2 (bzip (\<lambda>x y. Inr (x + y))) a c) = Inr (map2 (map2 (+)) a c)"
  proof (induction a c rule: list_induct2)
    case Nil
    show ?case by simp
  next
    case (Cons r a r' c)
    then show ?case by (simp add: bzip_same)
  qed
  then show ?thesis using len by (simp add: tensor_add_def bzip_def [of "bzip _"])
qed


lemma shape_nth:
  "map length t = map length x \<Longrightarrow> b < length x \<Longrightarrow> b < length t \<and> length (t ! b) = length (x ! b)"
  by (metis length_map nth_map)

lemma weighted_sum_entry:
  assumes len: "length ws = length zs"
    and sh: "list_all (\<lambda>z. map length z = map length x) zs"
    and b: "b < length x" and j: "j < length (x ! b)"
  shows "(\<Sum>t\<leftarrow>map2 (\<lambda>t w. scale w t) zs ws. t ! b ! j) = mixture_entry ws zs b j"
proof -
  let ?W = "map2 (\<lambda>t w. scale w t) zs ws"
  have lw: "length ?W = length zs" using len by simp
  have e: "map (\<lambda>t. t ! b ! j) ?W ! i = ws ! i * zs ! i ! b ! j" if i: "i < length zs" for i
  proof -
    have "map length (zs ! i) = map length x"
      using sh i by (simp add: list_all_length)
    from shape_nth [OF this b] j have "b < length (zs ! i)" "j < length (zs ! i ! b)"
      by simp_all
    then show ?thesis using i len by (simp add: scale_entry)
  qed
  have "(\<Sum>t\<leftarrow>?W. t ! b ! j) = (\<Sum>i = 0..<length zs. map (\<lambda>t. t ! b ! j) ?W ! i)"
    using sum_list_sum_nth [of "map (\<lambda>t. t ! b ! j) ?W"] lw by simp
  also have "\<dots> = (\<Sum>i = 0..<length zs. ws ! i * zs ! i ! b ! j)"
  proof (rule sum.cong [OF refl])
    fix i assume "i \<in> {0..<length zs}"
    then have "i < length zs" by simp
    then show "map (\<lambda>t. t ! b ! j) ?W ! i = ws ! i * zs ! i ! b ! j" by (rule e)
  qed
  finally show ?thesis by (simp add: mixture_entry_def atLeast0LessThan)
qed

text \<open>
  C2, as the code has it. Let the wrapper have \<open>n \<ge> 1\<close> candidates and as many
  architecture weights, let every candidate return, on the same input \<open>x\<close>, a batch
  \<open>y\<^sub>i\<close> of the shape of \<open>x\<close>, and let \<open>z\<^sub>i\<close> be what the drop path makes of \<open>y\<^sub>i\<close> (\<open>y\<^sub>i\<close>
  itself outside training or at ratio zero, see \<open>DropPath_forward_inactive\<close>). Then
  \<^verbatim>\<open>forward\<close> returns a batch of the shape of \<open>x\<close> whose entries are the sum over the
  \<open>n\<close> candidates of \<open>softmax(alpha)\<^sub>i\<close> times the entry of \<open>z\<^sub>i\<close>, \<^emph>\<open>plus\<close> the current
  weight of the global \<^verbatim>\<open>auxiliary_skip_weight\<close> times the entry of the input.
\<close>

theorem layer_choice_forward_mixture:
  assumes ne: "ops \<noteq> []" and la: "length alpha_w = length ops"
    and ys: "map (\<lambda>op. op x) ops = map Inr ys"
    and zs: "map2 (\<lambda>i y. DropPath_forward p tr (masks i) y) [0..<length ys] ys = map Inr zs"
    and sh: "list_all (\<lambda>y. map length y = map length x) ys"
  shows "\<exists>out. DartsLayerChoice_forward alpha_w ops p tr masks aux x = Inr out
       \<and> length zs = length ops
       \<and> map length out = map length x
       \<and> (\<forall>b<length x. \<forall>j<length (x ! b).
             out ! b ! j = mixture_entry (softmax alpha_w) zs b j + weight aux * x ! b ! j)"
proof -
  let ?ws = "softmax alpha_w"
  let ?W = "map2 (\<lambda>t w. scale w t) zs ?ws"
  let ?S = "sum_dim0 (hd zs) ?W"
  let ?out = "map2 (map2 (+)) ?S (scale (weight aux) x)"
  have lys: "length ys = length ops"
    using ys by (metis length_map)
  have lzs: "length zs = length ys"
    using zs by (metis length_map length_zip length_upt diff_zero min.idem)
  have zne: "zs \<noteq> []"
    using ne lys lzs by auto
  have r: "op_results p tr masks 0 ops x = Inr zs"
    using op_results_ok [OF ys, of p tr masks 0 zs] zs by simp
  have zsh: "list_all (\<lambda>z. map length z = map length x) zs"
    unfolding list_all_length
  proof (intro allI impI)
    fix i assume i: "i < length zs"
    have "map2 (\<lambda>i y. DropPath_forward p tr (masks i) y) [0..<length ys] ys ! i = map Inr zs ! i"
      by (simp only: zs)
    then have "DropPath_forward p tr (masks i) (ys ! i) = Inr (zs ! i)"
      using i lzs by simp
    from DropPath_forward_shape [OF this] sh i lzs show "map length (zs ! i) = map length x"
      by (simp add: list_all_length)
  qed
  have hd: "map length (hd zs) = map length x"
    using zsh zne by (cases zs) simp_all
  have st: "torch_stack zs = Inr zs"
    using zsh zne hd by (cases zs) (auto simp: torch_stack_def list_all_iff)
  have lws: "length zs = length ?ws"
    using la lys lzs by (simp add: length_softmax)
  have bz: "bzip (\<lambda>t w. Inr (scale w t)) zs ?ws = Inr ?W"
    by (rule bzip_same [OF lws])
  have Wsh: "list_all (\<lambda>t. map length t = map length (hd zs)) ?W"
    using zsh hd by (auto simp: list_all_iff scale_shape dest: set_zip_leftD)
  note S = sum_dim0_entries [OF Wsh]
  have Ssh: "map length ?S = map length (scale (weight aux) x)"
    using S hd by (simp add: scale_shape)
  have fw: "DartsLayerChoice_forward alpha_w ops p tr masks aux x = Inr ?out"
    by (simp add: DartsLayerChoice_forward_def r st bz tensor_add_same [OF Ssh])
  have osh: "map length ?out = map length x"
    using map2_shape [OF _ scale_shape, of ?S x "(+)" "weight aux"] S hd by simp
  have ent: "?out ! b ! j = mixture_entry ?ws zs b j + weight aux * x ! b ! j"
    if b: "b < length x" and j: "j < length (x ! b)" for b j
  proof -
    have Sx: "map length ?S = map length x" using S hd by simp
    from shape_nth [OF Sx b] j have bS: "b < length ?S" and jS: "j < length (?S ! b)"
      by simp_all
    from shape_nth [OF hd b] j have bh: "b < length (hd zs)" and jh: "j < length (hd zs ! b)"
      by simp_all
    have "?out ! b ! j = ?S ! b ! j + scale (weight aux) x ! b ! j"
      by (rule map2_entry [OF Ssh bS jS])
    also have "?S ! b ! j = (\<Sum>t\<leftarrow>?W. t ! b ! j)"
      using S bh jh by simp
    also have "\<dots> = mixture_entry ?ws zs b j"
      by (rule weighted_sum_entry [OF lws [symmetric] zsh b j])
    also have "scale (weight aux) x ! b ! j = weight aux * x ! b ! j"
      by (rule scale_entry [OF b j])
    finally show ?thesis .
  qed
  from fw osh ent lys lzs show ?thesis by simp
qed

theorem layer_choice_forward_mixture_witness:
  "\<exists>out. DartsLayerChoice_forward [0, 0] [\<lambda>x. Inr x, \<lambda>x. Inr (scale 3 x)] (1 / 2) True
            (\<lambda>i b. i = 0) (reset (DecayScheduler_init 1 15 ''linear'') 1 10) [[2]] = Inr out
     \<and> map length out = [1] \<and> out ! 0 ! 0 = 4"
proof -
  let ?ops = "[\<lambda>x. Inr x, \<lambda>x::matrix. Inr (scale 3 x) :: py_error + matrix]"
  have ys: "map (\<lambda>op. op [[2]]) ?ops = map Inr [[[2]], [[6]]]"
    by (simp add: scale_def)
  have zs: "map2 (\<lambda>i y. DropPath_forward (1 / 2) True ((\<lambda>i b. i = 0) i) y) [0..<length [[[2]], [[6::real]]]] [[[2]], [[6]]]
      = map Inr [[[4]], [[0]]]"
    by (simp add: DropPath_forward_def upt_rec [of 0] upt_rec [of 1])
  have sm: "softmax [0, 0] = [1 / 2, 1 / 2]"
    by (simp add: softmax_def)
  have me: "mixture_entry [1 / 2, 1 / 2] [[[4]], [[0]]] 0 0 = 2"
    by (simp add: mixture_entry_def lessThan_Suc numeral_2_eq_2)
  from layer_choice_forward_mixture [of ?ops "[0, 0]" "[[2]]" "[[[2]], [[6]]]" "1 / 2" True "\<lambda>i b. i = 0"
      "[[[4]], [[0]]]" "reset (DecayScheduler_init 1 15 ''linear'') 1 10", OF _ _ ys zs]
  show ?thesis by (simp add: sm me reset_def)
qed

text \<open>
  C2 as stated fails: with one candidate that doubles its input, outside training and
  with the auxiliary weight at its initial value 1, the output on the batch \<open>[[1]]\<close> is
  \<open>[[3]]\<close>, while the weighted sum over the candidates alone is 2. The input itself
  contributes through the auxiliary skip pathway.
\<close>

theorem layer_choice_forward_skip_counterexample:
  "DartsLayerChoice_forward [0] [\<lambda>x. Inr (scale 2 x)] 0 False (\<lambda>i b. True)
      (reset (DecayScheduler_init 1 15 ''linear'') 1 10) [[1]] = Inr [[3]]
   \<and> mixture_entry (softmax [0]) [scale 2 [[1]]] 0 0 = 2"
  by (simp add: DartsLayerChoice_forward_def DropPath_forward_def torch_stack_def bzip_def
      tensor_add_def sum_dim0_def scale_def softmax_def mixture_entry_def reset_def)

subsection \<open>The unrolled gradient: what the routine leaves behind\<close>

lemma frame_refl: "frame s s"
  by (simp add: frame_def)

lemma frame_trans: "frame a b \<Longrightarrow> frame b c \<Longrightarrow> frame a c"
  by (auto simp: frame_def)

lemma alloc_frame: "frame s (alloc t s)"
  by (simp add: frame_def alloc_def)

lemma alloc_heap: "a \<noteq> next_addr s \<Longrightarrow> heap (alloc t s) a = heap s a"
  by (simp add: alloc_def)

lemma alloc_other: "grad (alloc t s) = grad s" "warnings (alloc t s) = warnings s"
  "next_addr (alloc t s) = Suc (next_addr s)" "heap (alloc t s) (next_addr s) = t"
  by (simp_all add: alloc_def)

lemma upt_shift: "[n..<n + Suc k] = n # [Suc n..<Suc n + k]"
proof -
  have "n < n + Suc k" by simp
  from upt_conv_Cons [OF this] show ?thesis by (simp del: upt_Suc)
qed

lemma deepcopy_props:
  "deepcopy ps s = (s', bs) \<Longrightarrow>
     frame s s' \<and> grad s' = grad s \<and> warnings s' = warnings s
     \<and> next_addr s' = next_addr s + length ps
     \<and> bs = [next_addr s..<next_addr s + length ps]
     \<and> (\<forall>a<next_addr s. heap s' a = heap s a)
     \<and> ((\<forall>a\<in>set ps. a < next_addr s) \<longrightarrow> map (heap s') bs = map (heap s) ps)"
proof (induction ps arbitrary: s s' bs)
  case Nil
  then show ?case by (simp add: frame_refl)
next
  case (Cons a as)
  let ?s0 = "alloc (heap s a) s"
  obtain s1 bs1 where r: "deepcopy as ?s0 = (s1, bs1)"
    by (cases "deepcopy as ?s0")
  from Cons.prems r have s': "s' = s1" and bs: "bs = next_addr s # bs1"
    by simp_all
  note IH = Cons.IH [OF r]
  note I1 = IH [THEN conjunct1]
  note I2 = IH [THEN conjunct2, THEN conjunct1]
  note I3 = IH [THEN conjunct2, THEN conjunct2, THEN conjunct1]
  note I4 = IH [THEN conjunct2, THEN conjunct2, THEN conjunct2, THEN conjunct1]
  note I5 = IH [THEN conjunct2, THEN conjunct2, THEN conjunct2, THEN conjunct2, THEN conjunct1]
  note I6 = IH [THEN conjunct2, THEN conjunct2, THEN conjunct2, THEN conjunct2, THEN conjunct2,
      THEN conjunct1]
  note I7 = IH [THEN conjunct2, THEN conjunct2, THEN conjunct2, THEN conjunct2, THEN conjunct2,
      THEN conjunct2]
  have f: "frame s s1"
    using I1 alloc_frame [of s "heap s a"] frame_trans by blast
  have h: "\<forall>x<next_addr s. heap s1 x = heap s x"
    using I6 by (simp add: alloc_other alloc_heap)
  have top: "heap s1 (next_addr s) = heap s a"
    using I6 by (simp add: alloc_other)
  have b1: "bs1 = [Suc (next_addr s)..<Suc (next_addr s) + length as]"
    using I5 by (simp only: alloc_other)
  have upt: "[next_addr s..<next_addr s + length (a # as)] = next_addr s # bs1"
    using upt_shift [of "next_addr s" "length as"] by (simp only: b1 length_Cons)
  have nx: "next_addr s1 = next_addr s + length (a # as)"
    using I4 by (simp add: alloc_other)
  have m: "map (heap s1) (next_addr s # bs1) = map (heap s) (a # as)"
    if t: "\<forall>x\<in>set (a # as). x < next_addr s"
  proof -
    have "\<forall>x\<in>set as. x < next_addr ?s0"
      using t by (auto simp: alloc_other)
    with I7 have "map (heap s1) bs1 = map (heap ?s0) as"
      by blast
    also have "\<dots> = map (heap s) as"
      using t by (auto simp: alloc_heap)
    finally show ?thesis using top by simp
  qed
  have g: "grad s1 = grad s" "warnings s1 = warnings s"
    using I2 I3 by (simp_all add: alloc_other)
  show ?case
    unfolding s' bs
  proof (intro conjI impI)
    show "frame s s1" by (rule f)
    show "grad s1 = grad s" "warnings s1 = warnings s" by (rule g)+
    show "next_addr s1 = next_addr s + length (a # as)" by (rule nx)
    show "next_addr s # bs1 = [next_addr s..<next_addr s + length (a # as)]" by (rule upt [symmetric])
    show "\<forall>x<next_addr s. heap s1 x = heap s x" by (rule h)
    show "map (heap s1) (next_addr s # bs1) = map (heap s) (a # as)"
      if "\<forall>x\<in>set (a # as). x < next_addr s" using that by (rule m)
  qed
qed

lemma virtual_loop_props:
  "frame s (virtual_loop lr mo wd ws gs s)
   \<and> grad (virtual_loop lr mo wd ws gs s) = grad s
   \<and> warnings (virtual_loop lr mo wd ws gs s) = warnings s
   \<and> (\<forall>a<next_addr s. heap (virtual_loop lr mo wd ws gs s) a = heap s a)"
proof (induction lr mo wd ws gs s rule: virtual_loop.induct)
  case (1 lr mo wd w ws g gs s)
  let ?s1 = "alloc (virtual_step lr mo wd (momentum_buffer s w) (heap s w) g) s"
  from 1 alloc_frame [of s] frame_trans have "frame s (virtual_loop lr mo wd ws gs ?s1)"
    by blast
  with 1 show ?case by (simp add: alloc_other alloc_heap)
qed (simp_all add: frame_refl)

lemma copy_loop_props:
  "frame s (copy_loop ps bs s) \<and> grad (copy_loop ps bs s) = grad s
   \<and> warnings (copy_loop ps bs s) = warnings s
   \<and> next_addr (copy_loop ps bs s) = next_addr s
   \<and> (\<forall>a. a \<notin> set ps \<longrightarrow> heap (copy_loop ps bs s) a = heap s a)"
proof (induction ps bs s rule: copy_loop.induct)
  case (1 p ps b bs s)
  then show ?case by (auto simp: frame_def)
qed (simp_all add: frame_refl)

lemma perturb_props:
  "frame s (perturb e ps ds s) \<and> grad (perturb e ps ds s) = grad s
   \<and> warnings (perturb e ps ds s) = warnings s
   \<and> next_addr (perturb e ps ds s) = next_addr s
   \<and> (\<forall>a. a \<notin> set ps \<longrightarrow> heap (perturb e ps ds s) a = heap s a)"
proof (induction e ps ds s rule: perturb.induct)
  case (1 e p ps d ds s)
  then show ?case by (auto simp: frame_def)
qed (simp_all add: frame_refl)

lemma assign_grads_props:
  "frame s (assign_grads lr ps ds hs s) \<and> heap (assign_grads lr ps ds hs s) = heap s
   \<and> warnings (assign_grads lr ps ds hs s) = warnings s
   \<and> next_addr (assign_grads lr ps ds hs s) = next_addr s
   \<and> (\<forall>a. a \<notin> set ps \<longrightarrow> grad (assign_grads lr ps ds hs s) a = grad s a)"
proof (induction lr ps ds hs s rule: assign_grads.induct)
  case (1 lr param ps d ds h hs s)
  then show ?case by (auto simp: frame_def)
qed (simp_all add: frame_refl)

lemma copy_loop_restores:
  "set bs \<inter> set ps = {} \<Longrightarrow> length bs = length ps \<Longrightarrow>
   \<forall>(p, b)\<in>set (zip ps bs). heap s b = h0 p \<Longrightarrow>
   \<forall>p\<in>set ps. heap (copy_loop ps bs s) p = h0 p"
proof (induction ps bs s rule: copy_loop.induct)
  case (1 p ps b bs s)
  let ?s1 = "s\<lparr>heap := (heap s)(p := heap s b)\<rparr>"
  have d: "set bs \<inter> set ps = {}" and l: "length bs = length ps"
    using "1.prems" by auto
  have z: "\<forall>(q, c)\<in>set (zip ps bs). heap ?s1 c = h0 q"
  proof (clarify)
    fix q c assume qc: "(q, c) \<in> set (zip ps bs)"
    then have "c \<in> set bs" by (rule set_zip_rightD)
    then have "c \<noteq> p" using "1.prems"(1) by auto
    then show "heap ?s1 c = h0 q" using "1.prems"(3) qc by auto
  qed
  note IH = "1.IH" [OF d l z]
  have hp: "heap s b = h0 p" using "1.prems"(3) by simp
  show ?case
  proof
    fix q assume "q \<in> set (p # ps)"
    show "heap (copy_loop (p # ps) (b # bs) s) q = h0 q"
    proof (cases "q \<in> set ps")
      case True
      then show ?thesis using IH by simp
    next
      case False
      then have "q = p" using \<open>q \<in> set (p # ps)\<close> by simp
      then show ?thesis using False copy_loop_props [of ?s1 ps bs] hp by simp
    qed
  qed
qed simp_all


lemma compute_virtual_model_props:
  "frame s (compute_virtual_model ag lr mo wd s)
   \<and> grad (compute_virtual_model ag lr mo wd s) = grad s
   \<and> warnings (compute_virtual_model ag lr mo wd s) = warnings s
   \<and> (\<forall>a<next_addr s. heap (compute_virtual_model ag lr mo wd s) a = heap s a)"
  unfolding compute_virtual_model_def Let_def by (rule virtual_loop_props)

lemma restore_weights_props:
  "frame s (restore_weights bs s) \<and> grad (restore_weights bs s) = grad s
   \<and> warnings (restore_weights bs s) = warnings s
   \<and> next_addr (restore_weights bs s) = next_addr s
   \<and> (\<forall>a. a \<notin> set (model_parameters s) \<longrightarrow> heap (restore_weights bs s) a = heap s a)"
  unfolding restore_weights_def by (rule copy_loop_props)

lemma compute_hessian_props:
  "frame s (fst (compute_hessian ag bs dw s))
   \<and> grad (fst (compute_hessian ag bs dw s)) = grad s
   \<and> next_addr (fst (compute_hessian ag bs dw s)) = next_addr s
   \<and> (\<forall>a. a \<notin> set (model_parameters s) \<longrightarrow> heap (fst (compute_hessian ag bs dw s)) a = heap s a)"
proof -
  define s1 where "s1 = restore_weights bs s"
  define s2 where "s2 = (if flt (cat_norm dw) (Num (1 / 10 ^ 8))
                then s1\<lparr>warnings := warnings s1 @ [''In computing hessian, norm is smaller than 1E-8'']\<rparr>
                else s1)"
  define eps where "eps = fdiv (Num (1 / 100)) (cat_norm dw)"
  define s3 where "s3 = perturb eps (model_parameters s2) dw s2"
  define s4 where "s4 = perturb (fmul (Num (- 2)) eps) (model_parameters s3) dw s3"
  have r: "fst (compute_hessian ag bs dw s) = s4"
    by (simp add: compute_hessian_def Let_def s4_def s3_def s2_def s1_def eps_def)
  have p1: "frame s s1" "grad s1 = grad s" "next_addr s1 = next_addr s"
    "\<forall>a. a \<notin> set (model_parameters s) \<longrightarrow> heap s1 a = heap s a"
    using restore_weights_props [of s bs] by (simp_all add: s1_def)
  have p2: "frame s1 s2" "grad s2 = grad s1" "next_addr s2 = next_addr s1" "heap s2 = heap s1"
    by (simp_all add: s2_def frame_def)
  have p3: "frame s2 s3" "grad s3 = grad s2" "next_addr s3 = next_addr s2"
    "\<forall>a. a \<notin> set (model_parameters s2) \<longrightarrow> heap s3 a = heap s2 a"
    using perturb_props [of s2 eps "model_parameters s2" dw] by (simp_all add: s3_def)
  have p4: "frame s3 s4" "grad s4 = grad s3" "next_addr s4 = next_addr s3"
    "\<forall>a. a \<notin> set (model_parameters s3) \<longrightarrow> heap s4 a = heap s3 a"
    using perturb_props [of s3 "fmul (Num (- 2)) eps" "model_parameters s3" dw]
    by (simp_all add: s4_def)
  have mp: "model_parameters s1 = model_parameters s" "model_parameters s2 = model_parameters s"
    "model_parameters s3 = model_parameters s"
    using p1(1) p2(1) p3(1) by (simp_all add: frame_def)
  have "frame s s4"
    using p1(1) p2(1) p3(1) p4(1) frame_trans by blast
  moreover have "grad s4 = grad s" "next_addr s4 = next_addr s"
    using p1 p2 p3 p4 by simp_all
  moreover have "\<forall>a. a \<notin> set (model_parameters s) \<longrightarrow> heap s4 a = heap s a"
    using p1(4) p2(4) p3(4) p4(4) mp by simp
  ultimately show ?thesis by (simp add: r)
qed

lemma zip_map_eq:
  "map f bs = map g ps \<Longrightarrow> (p, b) \<in> set (zip ps bs) \<Longrightarrow> f b = g p"
  by (metis in_set_zip nth_map length_map fst_conv snd_conv)

lemma unrolled_backward_frame:
  assumes wf: "\<forall>a\<in>set (model_parameters s). a < next_addr s"
  shows "read_parameters (unrolled_backward ag s) = read_parameters s
       \<and> (\<forall>a<next_addr s. heap (unrolled_backward ag s) a = heap s a)
       \<and> model_parameters (unrolled_backward ag s) = model_parameters s
       \<and> nas_alphas (unrolled_backward ag s) = nas_alphas s
       \<and> opt_lr (unrolled_backward ag s) = opt_lr s
       \<and> opt_momentum (unrolled_backward ag s) = opt_momentum s
       \<and> opt_weight_decay (unrolled_backward ag s) = opt_weight_decay s
       \<and> momentum_buffer (unrolled_backward ag s) = momentum_buffer s
       \<and> (\<forall>a. a \<notin> set (nas_alphas s) \<longrightarrow> grad (unrolled_backward ag s) a = grad s a)"
proof -
  let ?P = "model_parameters s"
  obtain s1 bs where dc: "deepcopy ?P s = (s1, bs)"
    by (cases "deepcopy ?P s")
  define s2 where "s2 = compute_virtual_model ag (opt_lr s1) (opt_momentum s1) (opt_weight_decay s1) s1"
  define wg where "wg = grad_valid ag (read_parameters s2)"
  define ch where "ch = compute_hessian ag bs (take (length (model_parameters s2)) wg) s2"
  define s3 where "s3 = fst ch"
  define s4 where "s4 = assign_grads (opt_lr s1) (nas_alphas s2) (drop (length (model_parameters s2)) wg) (snd ch) s3"
  define s5 where "s5 = restore_weights bs s4"
  have r: "unrolled_backward ag s = s5"
    by (simp add: unrolled_backward_def dc Let_def s5_def s4_def s3_def ch_def wg_def s2_def
        case_prod_beta)
  note D = deepcopy_props [OF dc]
  note V = compute_virtual_model_props [of s1 ag "opt_lr s1" "opt_momentum s1" "opt_weight_decay s1",
      folded s2_def]
  note H = compute_hessian_props [of s2 ag bs "take (length (model_parameters s2)) wg",
      folded ch_def, folded s3_def]
  note A = assign_grads_props [of s3 "opt_lr s1" "nas_alphas s2"
      "drop (length (model_parameters s2)) wg" "snd ch", folded s4_def]
  note R = restore_weights_props [of s4 bs, folded s5_def]
  have f1: "frame s s1" and f2: "frame s1 s2" and f3: "frame s2 s3" and f4: "frame s3 s4"
    and f5: "frame s4 s5"
    using D V H A R by simp_all
  have f: "frame s s5"
    using f1 f2 f3 f4 f5 frame_trans by blast
  have mp: "model_parameters s1 = ?P" "model_parameters s2 = ?P" "model_parameters s3 = ?P"
    "model_parameters s4 = ?P" "nas_alphas s2 = nas_alphas s"
    using f1 f2 f3 f4 by (simp_all add: frame_def)
  have nx: "next_addr s1 = next_addr s + length ?P"
    and bs: "bs = [next_addr s..<next_addr s + length ?P]"
    using D by simp_all
  have disj: "set bs \<inter> set ?P = {}"
    using wf by (auto simp: bs)
  have lbs: "length bs = length ?P"
    by (simp add: bs)
  have keep: "heap s4 a = heap s1 a" if "a \<notin> set ?P" "a < next_addr s1" for a
  proof -
    have "heap s4 a = heap s3 a" using A by simp
    also have "\<dots> = heap s2 a" using H that(1) mp by simp
    also have "\<dots> = heap s1 a" using V that(2) by simp
    finally show ?thesis .
  qed
  have bk: "\<forall>(p, b)\<in>set (zip ?P bs). heap s4 b = heap s p"
  proof (clarify)
    fix p b assume pb: "(p, b) \<in> set (zip ?P bs)"
    then have "b \<in> set bs" by (rule set_zip_rightD)
    then have "b \<notin> set ?P" "b < next_addr s1"
      using disj by (auto simp: bs nx)
    then have "heap s4 b = heap s1 b" by (rule keep)
    also have "\<dots> = heap s p"
      using D wf pb zip_map_eq [of "heap s1" bs "heap s" ?P p b] by blast
    finally show "heap s4 b = heap s p" .
  qed
  have par: "\<forall>p\<in>set ?P. heap s5 p = heap s p"
    using copy_loop_restores [OF disj lbs bk] by (simp add: s5_def restore_weights_def mp)
  have old: "heap s5 a = heap s a" if a: "a < next_addr s" for a
  proof (cases "a \<in> set ?P")
    case True
    then show ?thesis using par by simp
  next
    case False
    have "heap s5 a = heap s4 a" using R False mp by simp
    also have "\<dots> = heap s1 a" using keep False a nx by simp
    also have "\<dots> = heap s a" using D a by simp
    finally show ?thesis .
  qed
  have rp: "read_parameters s5 = read_parameters s"
    using par f by (simp add: read_parameters_def frame_def)
  have gr: "grad s5 a = grad s a" if "a \<notin> set (nas_alphas s)" for a
  proof -
    have "grad s5 a = grad s4 a" using R by simp
    also have "\<dots> = grad s3 a" using A that mp by simp
    also have "\<dots> = grad s a" using H V D by simp
    finally show ?thesis .
  qed
  show ?thesis
    unfolding r using rp old gr f by (simp add: frame_def)
qed

text \<open>
  C5. When every parameter of the model is an allocated tensor, \<^verbatim>\<open>_unrolled_backward\<close>
  returns with every parameter tensor holding the value it held on entry; indeed every
  tensor that existed on entry holds its old value (the routine only adds temporaries:
  the snapshot and the results of the virtual step). The parameter lists and the
  optimizer (learning rate, momentum, weight decay, momentum buffers) are as they were,
  and the only \<^verbatim>\<open>.grad\<close> fields that may differ are those of the architecture weights.
\<close>

theorem unrolled_backward_restores_parameters:
  assumes wf: "\<forall>a\<in>set (model_parameters s). a < next_addr s"
  shows "read_parameters (unrolled_backward ag s) = read_parameters s
       \<and> (\<forall>a<next_addr s. heap (unrolled_backward ag s) a = heap s a)
       \<and> model_parameters (unrolled_backward ag s) = model_parameters s
       \<and> nas_alphas (unrolled_backward ag s) = nas_alphas s
       \<and> opt_lr (unrolled_backward ag s) = opt_lr s
       \<and> opt_momentum (unrolled_backward ag s) = opt_momentum s
       \<and> opt_weight_decay (unrolled_backward ag s) = opt_weight_decay s
       \<and> momentum_buffer (unrolled_backward ag s) = momentum_buffer s
       \<and> (\<forall>a. a \<notin> set (nas_alphas s) \<longrightarrow> grad (unrolled_backward ag s) a = grad s a)"
  using wf by (rule unrolled_backward_frame)

theorem unrolled_backward_restores_parameters_witness:
  "read_parameters (unrolled_backward example_autograd example_trainer) = [[Num 1], [Num 2]]
   \<and> heap (unrolled_backward example_autograd example_trainer) 0 = [Num 1]
   \<and> opt_lr (unrolled_backward example_autograd example_trainer) = 1 / 10"
proof -
  have wf: "\<forall>a\<in>set (model_parameters example_trainer). a < next_addr example_trainer"
    by (simp add: example_trainer_def)
  have r: "read_parameters example_trainer = [[Num 1], [Num 2]]"
    by (simp add: read_parameters_def example_trainer_def)
  have n: "(0::nat) < next_addr example_trainer" "heap example_trainer 0 = [Num 1]"
    "opt_lr example_trainer = 1 / 10"
    by (simp_all add: example_trainer_def)
  from unrolled_backward_restores_parameters [OF wf, of example_autograd] r n
  show ?thesis by simp
qed

subsection \<open>The unrolled gradient: virtual step and finite differences\<close>

lemma foldl_fadd_Num:
  "foldl fadd (Num a) (map (\<lambda>v. fmul v v) (map Num xs)) = Num (a + (\<Sum>x\<leftarrow>xs. x * x))"
  by (induction xs arbitrary: a) (simp_all add: add.assoc)

lemma cat_norm_finite: "cat_norm (finite_tensors ds) = Num (euclidean_norm ds)"
proof -
  have c: "concat (map (map Num) ds) = map Num (concat ds)"
    by (simp add: map_concat)
  have nn: "(0::real) \<le> (\<Sum>x\<leftarrow>concat ds. x * x)"
    by (rule sum_list_nonneg) auto
  have "cat_norm (finite_tensors ds)
      = fsqrt (foldl fadd (Num 0) (map (\<lambda>v. fmul v v) (map Num (concat ds))))"
    by (simp only: cat_norm_def finite_tensors_def c)
  also have "\<dots> = fsqrt (Num (0 + (\<Sum>x\<leftarrow>concat ds. x * x)))"
    by (simp only: foldl_fadd_Num)
  also have "\<dots> = Num (euclidean_norm ds)"
    using nn by (simp add: euclidean_norm_def)
  finally show ?thesis .
qed

lemma map2_Num_axpy:
  "map2 (\<lambda>pi di. fadd pi (fmul (Num e) di)) (map Num w) (map Num d)
     = map Num (map2 (\<lambda>wi di. wi + e * di) w d)"
  by (induction w d rule: list_induct2') simp_all

lemma perturb_read:
  "distinct ps \<Longrightarrow> length ws = length ps \<Longrightarrow> length ds = length ps \<Longrightarrow>
   map (heap s) ps = finite_tensors ws \<Longrightarrow>
   map (heap (perturb (Num e) ps (finite_tensors ds) s)) ps = finite_tensors (axpy e ws ds)"
proof (induction ps arbitrary: ws ds s)
  case Nil
  then show ?case by (simp add: finite_tensors_def axpy_def)
next
  case (Cons p ps)
  from Cons.prems obtain w ws' where ws: "ws = w # ws'" by (cases ws) auto
  from Cons.prems obtain d ds' where ds: "ds = d # ds'" by (cases ds) auto
  let ?s1 = "s\<lparr>heap := (heap s)(p := map2 (\<lambda>pi di. fadd pi (fmul (Num e) di)) (heap s p) (map Num d))\<rparr>"
  have hp: "heap s p = map Num w" and rest: "map (heap s) ps = finite_tensors ws'"
    using Cons.prems(4) by (simp_all add: ws finite_tensors_def)
  have pn: "p \<notin> set ps" and dps: "distinct ps"
    using Cons.prems(1) by simp_all
  have rest1: "map (heap ?s1) ps = finite_tensors ws'"
    using rest pn by (auto simp: finite_tensors_def)
  have IH: "map (heap (perturb (Num e) ps (finite_tensors ds') ?s1)) ps = finite_tensors (axpy e ws' ds')"
    using Cons.IH [OF dps _ _ rest1, of ds'] Cons.prems(2,3) by (simp add: ws ds)
  have "heap (perturb (Num e) ps (finite_tensors ds') ?s1) p = heap ?s1 p"
    using perturb_props [of ?s1 "Num e" ps "finite_tensors ds'"] pn by simp
  also have "\<dots> = map Num (map2 (\<lambda>wi di. wi + e * di) w d)"
    by (simp add: hp map2_Num_axpy)
  finally show ?case
    using IH by (simp add: ws ds finite_tensors_def axpy_def)
qed

lemma copy_loop_read:
  "distinct ps \<Longrightarrow> set bs \<inter> set ps = {} \<Longrightarrow> length bs = length ps \<Longrightarrow>
   map (heap (copy_loop ps bs s)) ps = map (heap s) bs"
proof (induction ps bs s rule: copy_loop.induct)
  case (1 p ps b bs s)
  let ?s1 = "s\<lparr>heap := (heap s)(p := heap s b)\<rparr>"
  have d: "distinct ps" "set bs \<inter> set ps = {}" "length bs = length ps" "p \<notin> set ps" "p \<notin> set bs"
    using "1.prems" by auto
  have "map (heap (copy_loop ps bs ?s1)) ps = map (heap ?s1) bs"
    by (rule "1.IH" [OF d(1,2,3)])
  also have "\<dots> = map (heap s) bs"
    using d(5) by auto
  finally have r: "map (heap (copy_loop ps bs ?s1)) ps = map (heap s) bs" .
  have "heap (copy_loop ps bs ?s1) p = heap ?s1 p"
    using copy_loop_props [of ?s1 ps bs] d(4) by simp
  then show ?case using r by simp
qed simp_all



lemma axpy_row_twice:
  "map2 (\<lambda>wi di. wi + (- 2 * e) * di) (map2 (\<lambda>wi di. wi + e * di) w d) d
     = map2 (\<lambda>wi di. wi + (- e) * di) w (d :: real list)"
  by (induction w d rule: list_induct2') (simp_all add: algebra_simps)

lemma axpy_twice: "axpy (- 2 * e) (axpy e ws ds) ds = axpy (- e) ws ds"
  unfolding axpy_def
proof (induction ws ds rule: list_induct2')
  case (4 w ws d ds)
  then show ?case
    by (simp only: zip_Cons_Cons list.map prod.case axpy_row_twice)
qed simp_all

lemma length_axpy: "length (axpy e ws ds) = min (length ws) (length ds)"
  by (simp add: axpy_def)

lemma hessian_rows:
  "e \<noteq> 0 \<Longrightarrow>
   map2 (\<lambda>pi ni. fdiv (fsub pi ni) (fmul (Num 2) (Num e))) (map Num p) (map Num n)
     = map Num (map2 (\<lambda>pi ni. (pi - ni) / (2 * e)) p n)"
  by (induction p n rule: list_induct2') (simp_all add: fsub_def)

lemma hessian_finite:
  assumes "e \<noteq> 0"
  shows "map2 (\<lambda>p n. map2 (\<lambda>pi ni. fdiv (fsub pi ni) (fmul (Num 2) (Num e))) p n)
      (finite_tensors gp) (finite_tensors gn)
     = finite_tensors (map2 (map2 (\<lambda>pi ni. (pi - ni) / (2 * e))) gp gn)"
  unfolding finite_tensors_def
proof (induction gp gn rule: list_induct2')
  case (4 p gp n gn)
  then show ?case
    by (simp only: zip_Cons_Cons list.map prod.case hessian_rows [OF assms])
qed simp_all

lemma compute_hessian_finite:
  fixes ds ws gp gn :: "real list list"
  assumes e_def: "e = 1 / 100 / euclidean_norm ds"
    and dist: "distinct (model_parameters s)"
    and disj: "set bs \<inter> set (model_parameters s) = {}"
    and lbs: "length bs = length (model_parameters s)"
    and bk: "map (heap s) bs = finite_tensors ws"
    and lds: "length ds = length (model_parameters s)"
    and n0: "euclidean_norm ds \<noteq> 0"
    and gp: "grad_train_alpha ag 0 (finite_tensors (axpy e ws ds)) = finite_tensors gp"
    and gn: "grad_train_alpha ag 1 (finite_tensors (axpy (- 2 * e) (axpy e ws ds) ds)) = finite_tensors gn"
  shows "snd (compute_hessian ag bs (finite_tensors ds) s)
           = finite_tensors (map2 (map2 (\<lambda>pi ni. (pi - ni) / (2 * e))) gp gn)
       \<and> read_parameters (fst (compute_hessian ag bs (finite_tensors ds) s))
           = finite_tensors (axpy (- e) ws ds)
       \<and> warnings (fst (compute_hessian ag bs (finite_tensors ds) s))
           = warnings s @ (if euclidean_norm ds < 1 / 10 ^ 8
                           then [''In computing hessian, norm is smaller than 1E-8''] else [])"
proof -
  let ?P = "model_parameters s"
  let ?dw = "finite_tensors ds"
  define s1 where "s1 = restore_weights bs s"
  define s2 where "s2 = (if flt (cat_norm ?dw) (Num (1 / 10 ^ 8))
                then s1\<lparr>warnings := warnings s1 @ [''In computing hessian, norm is smaller than 1E-8'']\<rparr>
                else s1)"
  define eps where "eps = fdiv (Num (1 / 100)) (cat_norm ?dw)"
  define s3 where "s3 = perturb eps (model_parameters s2) ?dw s2"
  define s4 where "s4 = perturb (fmul (Num (- 2)) eps) (model_parameters s3) ?dw s3"
  have e0: "e \<noteq> 0"
    using n0 by (simp add: e_def)
  have eps: "eps = Num e"
    using n0 by (simp add: eps_def cat_norm_finite e_def)
  have eps2: "fmul (Num (- 2)) eps = Num (- 2 * e)"
    by (simp add: eps)
  have lws: "length ws = length ?P"
    using bk lbs by (metis finite_tensors_def length_map)
  have p1: "frame s s1" "warnings s1 = warnings s"
    using restore_weights_props [of s bs] by (simp_all add: s1_def)
  have mp1: "model_parameters s1 = ?P"
    using p1(1) by (simp add: frame_def)
  have mp2: "model_parameters s2 = ?P"
    using mp1 by (simp add: s2_def)
  have mp3: "model_parameters s3 = ?P"
    using perturb_props [of s2 eps "model_parameters s2" ?dw] mp2 by (simp add: s3_def frame_def)
  have mp4: "model_parameters s4 = ?P"
    using perturb_props [of s3 "fmul (Num (- 2)) eps" "model_parameters s3" ?dw] mp3
    by (simp add: s4_def frame_def)
  have r1: "map (heap s1) ?P = finite_tensors ws"
    using copy_loop_read [OF dist disj lbs, of s] bk by (simp add: s1_def restore_weights_def)
  have r2: "map (heap s2) ?P = finite_tensors ws"
    using r1 by (simp add: s2_def)
  have r3: "map (heap s3) ?P = finite_tensors (axpy e ws ds)"
    unfolding s3_def mp2 eps by (rule perturb_read [OF dist lws lds r2])
  have l3: "length (axpy e ws ds) = length ?P"
    by (simp add: length_axpy lws lds)
  have r4: "map (heap s4) ?P = finite_tensors (axpy (- 2 * e) (axpy e ws ds) ds)"
    unfolding s4_def mp3 eps2 by (rule perturb_read [OF dist l3 lds r3])
  have w: "warnings s4 = warnings s @ (if euclidean_norm ds < 1 / 10 ^ 8
                           then [''In computing hessian, norm is smaller than 1E-8''] else [])"
  proof -
    have "warnings s4 = warnings s3"
      using perturb_props [of s3 "fmul (Num (- 2)) eps" "model_parameters s3" ?dw] by (simp add: s4_def)
    also have "\<dots> = warnings s2"
      using perturb_props [of s2 eps "model_parameters s2" ?dw] by (simp add: s3_def)
    also have "\<dots> = warnings s @ (if euclidean_norm ds < 1 / 10 ^ 8
                           then [''In computing hessian, norm is smaller than 1E-8''] else [])"
      by (simp add: s2_def cat_norm_finite p1(2))
    finally show ?thesis .
  qed
  have fst: "fst (compute_hessian ag bs ?dw s) = s4"
    by (simp add: compute_hessian_def Let_def s4_def s3_def s2_def s1_def eps_def)
  have snd: "snd (compute_hessian ag bs ?dw s)
      = map2 (\<lambda>p n. map2 (\<lambda>pi ni. fdiv (fsub pi ni) (fmul (Num 2) eps)) p n)
          (grad_train_alpha ag 0 (read_parameters s3)) (grad_train_alpha ag 1 (read_parameters s4))"
    by (simp add: compute_hessian_def Let_def s4_def s3_def s2_def s1_def eps_def)
  have rp3: "read_parameters s3 = finite_tensors (axpy e ws ds)"
    by (simp add: read_parameters_def mp3 r3)
  have rp4: "read_parameters s4 = finite_tensors (axpy (- 2 * e) (axpy e ws ds) ds)"
    by (simp add: read_parameters_def mp4 r4)
  have "snd (compute_hessian ag bs ?dw s)
      = finite_tensors (map2 (map2 (\<lambda>pi ni. (pi - ni) / (2 * e))) gp gn)"
    unfolding snd rp3 rp4 gp gn eps by (rule hessian_finite [OF e0])
  moreover have "read_parameters (fst (compute_hessian ag bs ?dw s)) = finite_tensors (axpy (- e) ws ds)"
    unfolding fst rp4 by (simp only: axpy_twice)
  ultimately show ?thesis
    using w by (simp only: fst simp_thms)
qed


lemma compute_hessian_warning:
  "warnings (fst (compute_hessian ag bs (finite_tensors ds) s))
     = warnings s @ (if euclidean_norm ds < 1 / 10 ^ 8
                     then [''In computing hessian, norm is smaller than 1E-8''] else [])"
proof -
  let ?dw = "finite_tensors ds"
  define s1 where "s1 = restore_weights bs s"
  define s2 where "s2 = (if flt (cat_norm ?dw) (Num (1 / 10 ^ 8))
                then s1\<lparr>warnings := warnings s1 @ [''In computing hessian, norm is smaller than 1E-8'']\<rparr>
                else s1)"
  define eps where "eps = fdiv (Num (1 / 100)) (cat_norm ?dw)"
  define s3 where "s3 = perturb eps (model_parameters s2) ?dw s2"
  define s4 where "s4 = perturb (fmul (Num (- 2)) eps) (model_parameters s3) ?dw s3"
  have fst: "fst (compute_hessian ag bs ?dw s) = s4"
    by (simp add: compute_hessian_def Let_def s4_def s3_def s2_def s1_def eps_def)
  have "warnings s4 = warnings s3"
    using perturb_props [of s3 "fmul (Num (- 2)) eps" "model_parameters s3" ?dw] by (simp add: s4_def)
  also have "\<dots> = warnings s2"
    using perturb_props [of s2 eps "model_parameters s2" ?dw] by (simp add: s3_def)
  also have "\<dots> = warnings s @ (if euclidean_norm ds < 1 / 10 ^ 8
                           then [''In computing hessian, norm is smaller than 1E-8''] else [])"
    using restore_weights_props [of s bs] by (simp add: s2_def s1_def cat_norm_finite)
  finally show ?thesis by (simp only: fst)
qed

lemma compute_virtual_model_leaves_parameters:
  assumes "\<forall>a\<in>set (model_parameters s). a < next_addr s"
  shows "read_parameters (compute_virtual_model ag lr mo wd s) = read_parameters s"
  using assms compute_virtual_model_props [of s ag lr mo wd]
  by (simp add: read_parameters_def frame_def)

lemma local_w_grads_at_entry:
  assumes wf: "\<forall>a\<in>set (model_parameters s). a < next_addr s"
  shows "local_w_grads ag s = grad_valid ag (read_parameters s)"
proof -
  let ?P = "model_parameters s"
  obtain s1 bs where dc: "deepcopy ?P s = (s1, bs)"
    by (cases "deepcopy ?P s")
  note D = deepcopy_props [OF dc]
  have mp: "model_parameters s1 = ?P" and nx: "next_addr s \<le> next_addr s1"
    using D by (simp_all add: frame_def)
  have wf1: "\<forall>a\<in>set (model_parameters s1). a < next_addr s1"
    using wf mp nx by auto
  have "read_parameters s1 = read_parameters s"
    using D wf by (simp add: read_parameters_def mp)
  with compute_virtual_model_leaves_parameters [OF wf1, of ag "opt_lr s1" "opt_momentum s1" "opt_weight_decay s1"]
  show ?thesis by (simp add: local_w_grads_def dc)
qed

text \<open>
  C1 against the code. \<^verbatim>\<open>_compute_virtual_model\<close> computes the virtual weights, from the
  live optimizer's learning rate, momentum, weight decay and momentum buffers, and leaves
  the optimizer alone; but it binds each result to the loop variable, so no parameter
  tensor is updated: the model's parameters hold the same values after it as before, and
  the validation gradient of \<^verbatim>\<open>_unrolled_backward\<close> is the gradient at the weights of entry,
  not at the virtual weights.
\<close>

theorem virtual_step_is_discarded:
  assumes "\<forall>a\<in>set (model_parameters s). a < next_addr s"
  shows "read_parameters (compute_virtual_model ag lr mo wd s) = read_parameters s
       \<and> momentum_buffer (compute_virtual_model ag lr mo wd s) = momentum_buffer s
       \<and> local_w_grads ag s = grad_valid ag (read_parameters s)"
  using compute_virtual_model_leaves_parameters [OF assms] local_w_grads_at_entry [OF assms]
    compute_virtual_model_props [of s ag lr mo wd]
  by (simp add: frame_def)

theorem virtual_step_is_discarded_witness:
  "read_parameters (compute_virtual_model example_autograd (1 / 10) 0 0 example_trainer)
     = [[Num 1], [Num 2]]
   \<and> virtual_step (1 / 10) 0 0 None [Num 1] [Num 1] = [Num (9 / 10)]
   \<and> heap (compute_virtual_model example_autograd (1 / 10) 0 0 example_trainer) 2 = [Num (9 / 10)]"
proof -
  have wf: "\<forall>a\<in>set (model_parameters example_trainer). a < next_addr example_trainer"
    by (simp add: example_trainer_def)
  have r: "read_parameters example_trainer = [[Num 1], [Num 2]]"
    by (simp add: read_parameters_def example_trainer_def)
  have v: "virtual_step (1 / 10) 0 0 None [Num 1] [Num 1] = [Num (9 / 10)]"
    by (simp add: virtual_step_def fsub_def)
  have h: "heap (compute_virtual_model example_autograd (1 / 10) 0 0 example_trainer) 2 = [Num (9 / 10)]"
    by (simp add: compute_virtual_model_def example_autograd_def example_trainer_def
        read_parameters_def alloc_def virtual_step_def fsub_def)
  from virtual_step_is_discarded [OF wf, of example_autograd "1 / 10" 0 0] r v h
  show ?thesis by simp
qed

lemma remove_duplicate_addresses:
  "snd ` set (remove_duplicate memo xs) = snd ` set xs - memo"
  by (induction memo xs rule: remove_duplicate.induct) auto

lemma remove_duplicate_distinct: "distinct (map snd (remove_duplicate memo xs))"
proof (induction memo xs rule: remove_duplicate.induct)
  case (1 memo)
  show ?case by simp
next
  case (2 memo n a xs)
  show ?case
  proof (cases "a \<in> memo")
    case True
    with 2 show ?thesis by simp
  next
    case False
    have "a \<notin> snd ` set (remove_duplicate (insert a memo) xs)"
      by (simp only: remove_duplicate_addresses) simp
    with 2 False show ?thesis by simp
  qed
qed

lemma arch_weights_named:
  "set (arch_weights m) \<subseteq> snd ` set (named_members prefix m)"
proof (induction m arbitrary: prefix rule: arch_weights.induct)
  case (1 c ps ms)
  have a: "set (if c = Op then [] else map snd (filter (\<lambda>(n, a). n = ''alpha'') ps))
      \<subseteq> snd ` set (map (\<lambda>(n, a). (prefix @ n, a)) ps)"
  proof
    fix x assume "x \<in> set (if c = Op then [] else map snd (filter (\<lambda>(n, a). n = ''alpha'') ps))"
    then obtain n where "(n, x) \<in> set ps"
      by (auto split: if_splits)
    then have "(prefix @ n, x) \<in> set (map (\<lambda>(n, a). (prefix @ n, a)) ps)"
      by force
    then show "x \<in> snd ` set (map (\<lambda>(n, a). (prefix @ n, a)) ps)"
      by (rule image_eqI [rotated]) simp
  qed
  have b: "set (concat (map (\<lambda>(n, m). arch_weights m) ms))
      \<subseteq> snd ` set (concat (map (\<lambda>(n, m). named_members (prefix @ n @ ''.'') m) ms))"
  proof
    fix x assume "x \<in> set (concat (map (\<lambda>(n, m). arch_weights m) ms))"
    then obtain n m where nm: "(n, m) \<in> set ms" and x: "x \<in> set (arch_weights m)"
      by auto
    from "1.IH" [OF nm refl, of "prefix @ n @ ''.''"] x
    have "x \<in> snd ` set (named_members (prefix @ n @ ''.'') m)" by blast
    with nm show "x \<in> snd ` set (concat (map (\<lambda>(n, m). named_members (prefix @ n @ ''.'') m) ms))"
      by force
  qed
  from a b show ?case by (simp only: arch_weights.simps named_members.simps set_append image_Un) blast
qed

lemma arch_weights_are_parameters:
  "set (arch_weights m) \<subseteq> set (map snd (Module_named_parameters m))"
  using arch_weights_named [of m "[]"]
  by (simp add: Module_named_parameters_def remove_duplicate_addresses)

lemma map2_Num_grad:
  "map2 (\<lambda>di hi. fsub di (fmul (Num lr) hi)) (map Num d) (map Num h)
     = map Num (map2 (\<lambda>di hi. di - lr * hi) d h)"
  by (induction d h rule: list_induct2') (simp_all add: fsub_def)

lemma assign_grads_last:
  "i < length ps \<Longrightarrow> i < length ds \<Longrightarrow> i < length hs \<Longrightarrow>
   ps ! i \<notin> set (drop (Suc i) ps) \<Longrightarrow>
   grad (assign_grads lr ps ds hs s) (ps ! i)
     = Some (map2 (\<lambda>di hi. fsub di (fmul (Num lr) hi)) (ds ! i) (hs ! i))"
proof (induction lr ps ds hs s arbitrary: i rule: assign_grads.induct)
  case (1 lr param ps d ds h hs s)
  let ?s1 = "s\<lparr>grad := (grad s)(param \<mapsto> map2 (\<lambda>di hi. fsub di (fmul (Num lr) hi)) d h)\<rparr>"
  show ?case
  proof (cases i)
    case 0
    have "param \<notin> set ps" using "1.prems"(4) by (simp add: 0)
    then have "grad (assign_grads lr ps ds hs ?s1) param = grad ?s1 param"
      using assign_grads_props [of ?s1 lr ps ds hs] by simp
    then show ?thesis by (simp add: 0)
  next
    case (Suc k)
    then show ?thesis using "1.IH" [of k] "1.prems" by simp
  qed
qed simp_all


lemma finite_take_drop:
  "length ds = n \<Longrightarrow> take n (finite_tensors (ds @ dc)) = finite_tensors ds
     \<and> drop n (finite_tensors (ds @ dc)) = finite_tensors dc"
  by (simp add: finite_tensors_def)

lemma unrolled_backward_warning:
  fixes ws ds dc :: "real list list"
  assumes wf: "\<forall>a\<in>set (model_parameters s). a < next_addr s"
    and w: "read_parameters s = finite_tensors ws"
    and g: "grad_valid ag (finite_tensors ws) = finite_tensors (ds @ dc)"
    and lds: "length ds = length (model_parameters s)"
  shows "warnings (unrolled_backward ag s)
           = warnings s @ (if euclidean_norm ds < 1 / 10 ^ 8
                           then [''In computing hessian, norm is smaller than 1E-8''] else [])"
proof -
  let ?P = "model_parameters s"
  obtain s1 bs where dc: "deepcopy ?P s = (s1, bs)"
    by (cases "deepcopy ?P s")
  define s2 where "s2 = compute_virtual_model ag (opt_lr s1) (opt_momentum s1) (opt_weight_decay s1) s1"
  define wg where "wg = grad_valid ag (read_parameters s2)"
  define ch where "ch = compute_hessian ag bs (take (length (model_parameters s2)) wg) s2"
  define s3 where "s3 = fst ch"
  define s4 where "s4 = assign_grads (opt_lr s1) (nas_alphas s2) (drop (length (model_parameters s2)) wg) (snd ch) s3"
  define s5 where "s5 = restore_weights bs s4"
  have r: "unrolled_backward ag s = s5"
    by (simp add: unrolled_backward_def dc Let_def s5_def s4_def s3_def ch_def wg_def s2_def
        case_prod_beta)
  have lw: "local_w_grads ag s = wg"
    by (simp add: local_w_grads_def dc wg_def s2_def)
  note D = deepcopy_props [OF dc]
  note V = compute_virtual_model_props [of s1 ag "opt_lr s1" "opt_momentum s1" "opt_weight_decay s1",
      folded s2_def]
  have mp2: "model_parameters s2 = ?P"
    using D V by (simp add: frame_def)
  have wgv: "wg = finite_tensors (ds @ dc)"
    using local_w_grads_at_entry [OF wf, of ag] by (simp add: lw w g)
  have tk: "take (length (model_parameters s2)) wg = finite_tensors ds"
    using finite_take_drop [OF lds, of dc] by (simp add: mp2 wgv)
  have w3: "warnings s3 = warnings s2 @ (if euclidean_norm ds < 1 / 10 ^ 8
                           then [''In computing hessian, norm is smaller than 1E-8''] else [])"
    unfolding s3_def ch_def tk by (rule compute_hessian_warning)
  have w2: "warnings s2 = warnings s"
    using V D by simp
  have "warnings s5 = warnings s4"
    using restore_weights_props [of s4 bs] by (simp add: s5_def)
  also have "\<dots> = warnings s3"
    using assign_grads_props [of s3 "opt_lr s1" "nas_alphas s2" "drop (length (model_parameters s2)) wg" "snd ch"]
    by (simp add: s4_def)
  finally show ?thesis
    by (simp only: r w3 w2)
qed

lemma unrolled_backward_finite:
  fixes ws ds dc gp gn :: "real list list"
  assumes dist: "distinct (model_parameters s)"
    and wf: "\<forall>a\<in>set (model_parameters s). a < next_addr s"
    and w: "read_parameters s = finite_tensors ws"
    and g: "grad_valid ag (finite_tensors ws) = finite_tensors (ds @ dc)"
    and lds: "length ds = length (model_parameters s)"
    and n0: "euclidean_norm ds \<noteq> 0"
    and e: "e = 1 / 100 / euclidean_norm ds"
    and gp: "grad_train_alpha ag 0 (finite_tensors (axpy e ws ds)) = finite_tensors gp"
    and gn: "grad_train_alpha ag 1 (finite_tensors (axpy (- 2 * e) (axpy e ws ds) ds)) = finite_tensors gn"
    and H: "H = map2 (map2 (\<lambda>pi ni. (pi - ni) / (2 * e))) gp gn"
  shows "local_hessian ag s = finite_tensors H"
    and "read_parameters (hessian_state ag s) = finite_tensors (axpy (- e) ws ds)"
    and "i < length (nas_alphas s) \<Longrightarrow> i < length dc \<Longrightarrow> i < length H \<Longrightarrow>
         nas_alphas s ! i \<notin> set (drop (Suc i) (nas_alphas s)) \<Longrightarrow>
         grad (unrolled_backward ag s) (nas_alphas s ! i)
           = Some (map Num (map2 (\<lambda>di hi. di - opt_lr s * hi) (dc ! i) (H ! i)))"
proof -
  let ?P = "model_parameters s"
  obtain s1 bs where dc: "deepcopy ?P s = (s1, bs)"
    by (cases "deepcopy ?P s")
  define s2 where "s2 = compute_virtual_model ag (opt_lr s1) (opt_momentum s1) (opt_weight_decay s1) s1"
  define wg where "wg = grad_valid ag (read_parameters s2)"
  define ch where "ch = compute_hessian ag bs (take (length (model_parameters s2)) wg) s2"
  define s3 where "s3 = fst ch"
  define s4 where "s4 = assign_grads (opt_lr s1) (nas_alphas s2) (drop (length (model_parameters s2)) wg) (snd ch) s3"
  define s5 where "s5 = restore_weights bs s4"
  have r: "unrolled_backward ag s = s5"
    by (simp add: unrolled_backward_def dc Let_def s5_def s4_def s3_def ch_def wg_def s2_def
        case_prod_beta)
  have lw: "local_w_grads ag s = wg"
    by (simp add: local_w_grads_def dc wg_def s2_def)
  have lh: "local_hessian ag s = snd ch"
    by (simp add: local_hessian_def dc ch_def wg_def s2_def Let_def)
  note D = deepcopy_props [OF dc]
  have f1: "frame s s1"
    using D by simp
  note V = compute_virtual_model_props [of s1 ag "opt_lr s1" "opt_momentum s1" "opt_weight_decay s1",
      folded s2_def]
  have f2: "frame s1 s2"
    using V by simp
  have eqs: "opt_lr s1 = opt_lr s" "nas_alphas s2 = nas_alphas s" "model_parameters s2 = ?P"
    using f1 f2 by (simp_all add: frame_def)
  have wgv: "wg = finite_tensors (ds @ dc)"
    using local_w_grads_at_entry [OF wf, of ag] by (simp add: lw w g)
  have tk: "take (length (model_parameters s2)) wg = finite_tensors ds"
    and dr: "drop (length (model_parameters s2)) wg = finite_tensors dc"
    using finite_take_drop [OF lds, of dc] by (simp_all add: eqs wgv)
  have bs: "bs = [next_addr s..<next_addr s + length ?P]"
    and nx1: "next_addr s1 = next_addr s + length ?P"
    using D by simp_all
  have disj: "set bs \<inter> set (model_parameters s2) = {}"
    using wf by (auto simp: bs eqs)
  have lbs: "length bs = length (model_parameters s2)"
    by (simp add: bs eqs)
  have "map (heap s2) bs = map (heap s1) bs"
    using V by (auto simp: bs nx1)
  also have "\<dots> = map (heap s) ?P"
    using D wf by blast
  finally have bk: "map (heap s2) bs = finite_tensors ws"
    using w by (simp add: read_parameters_def)
  have dist2: "distinct (model_parameters s2)"
    using dist by (simp add: eqs)
  have lds2: "length ds = length (model_parameters s2)"
    using lds by (simp add: eqs)
  note C = compute_hessian_finite [OF e dist2 disj lbs bk lds2 n0 gp gn, folded H]
  have hv: "snd ch = finite_tensors H"
    using C by (simp add: ch_def tk)
  have ls: "hessian_state ag s = fst ch"
    by (simp add: hessian_state_def dc ch_def wg_def s2_def Let_def)
  show "local_hessian ag s = finite_tensors H"
    by (simp only: lh hv)
  show "read_parameters (hessian_state ag s) = finite_tensors (axpy (- e) ws ds)"
    using C by (simp add: ls ch_def tk)
  show "grad (unrolled_backward ag s) (nas_alphas s ! i)
           = Some (map Num (map2 (\<lambda>di hi. di - opt_lr s * hi) (dc ! i) (H ! i)))"
    if i: "i < length (nas_alphas s)" "i < length dc" "i < length H"
      "nas_alphas s ! i \<notin> set (drop (Suc i) (nas_alphas s))"
  proof -
    have i2: "i < length (finite_tensors dc)" "i < length (finite_tensors H)"
      using i by (simp_all add: finite_tensors_def)
    have "grad s5 = grad s4"
      using restore_weights_props [of s4 bs] by (simp add: s5_def)
    moreover have "grad s4 (nas_alphas s ! i)
        = Some (map2 (\<lambda>di hi. fsub di (fmul (Num (opt_lr s)) hi))
                  (finite_tensors dc ! i) (finite_tensors H ! i))"
      unfolding s4_def eqs dr [unfolded eqs] hv
      by (rule assign_grads_last [OF i(1) i2 i(4)])
    moreover have "finite_tensors dc ! i = map Num (dc ! i)" "finite_tensors H ! i = map Num (H ! i)"
      using i by (simp_all add: finite_tensors_def)
    ultimately show ?thesis
      by (simp only: r map2_Num_grad)
  qed
qed


text \<open>
  C4. Let the model's parameters, as \<^verbatim>\<open>self.model.parameters()\<close> yields them from the
  module tree, hold the finite values \<open>w\<close>, and let the validation gradient at \<open>w\<close> be
  \<open>d\<close> in these parameters and \<open>d_ctrl\<close> in the architecture weights. The architecture
  weights of the tree are among the model's parameters, so \<open>w\<close> holds their values and
  \<open>d\<close> their gradients as well. The routine logs the warning exactly when the norm of
  \<open>d\<close> is below \<open>10\<^sup>-\<^sup>8\<close>, and goes on. When the norm is not zero, let
  \<open>\<epsilon> = 0.01 / \<parallel>d\<parallel>\<close>: \<^verbatim>\<open>_compute_hessian\<close> takes the gradient of the training loss in the
  architecture weights first with all the model's parameters at \<open>w + \<epsilon> d\<close> and then with
  them moved by \<open>- 2 \<epsilon> d\<close> from there; if these gradients are \<open>g\<^sup>+\<close> and \<open>g\<^sup>-\<close>, its
  result is \<open>(g\<^sup>+ - g\<^sup>-) / (2 \<epsilon>)\<close>, and it leaves the parameters at \<open>w - \<epsilon> d\<close>. The
  routine then sets the \<^verbatim>\<open>.grad\<close> of each architecture weight to
  \<open>d_ctrl - lr \<sqdot> hessian\<close> (for a tensor that occurs more than once, the last
  occurrence counts), and takes no optimizer step: the optimizer is as it was and every
  tensor that existed on entry holds its old value. So the finite difference is taken
  along all of \<^verbatim>\<open>self.model.parameters()\<close>, the architecture weights included, and
  \<open>\<epsilon>\<close> from the norm of all of \<open>d\<close>, where the docstring of \<^verbatim>\<open>_compute_hessian\<close> has
  \<^verbatim>\<open>L_trn(w+, alpha)\<close> and \<^verbatim>\<open>L_trn(w-, alpha)\<close> with the architecture weights unmoved.
\<close>

theorem hessian_perturbs_architecture_weights:
  fixes ws ds dc gp gn H :: "real list list"
  assumes mp: "model_parameters s = map snd (Module_named_parameters m)"
    and wf: "\<forall>a\<in>set (model_parameters s). a < next_addr s"
    and w: "read_parameters s = finite_tensors ws"
    and g: "grad_valid ag (finite_tensors ws) = finite_tensors (ds @ dc)"
    and lds: "length ds = length (model_parameters s)"
    and e: "e = 1 / 100 / euclidean_norm ds"
    and H: "H = map2 (map2 (\<lambda>pi ni. (pi - ni) / (2 * e))) gp gn"
  shows "set (arch_weights m) \<subseteq> set (model_parameters s)
       \<and> warnings (unrolled_backward ag s)
           = warnings s @ (if euclidean_norm ds < 1 / 10 ^ 8
                           then [''In computing hessian, norm is smaller than 1E-8''] else [])
       \<and> (euclidean_norm ds \<noteq> 0
            \<and> grad_train_alpha ag 0 (finite_tensors (axpy e ws ds)) = finite_tensors gp
            \<and> grad_train_alpha ag 1 (finite_tensors (axpy (- 2 * e) (axpy e ws ds) ds))
                = finite_tensors gn \<longrightarrow>
          local_hessian ag s = finite_tensors H
          \<and> read_parameters (hessian_state ag s) = finite_tensors (axpy (- e) ws ds)
          \<and> (\<forall>i. i < length (nas_alphas s) \<and> i < length dc \<and> i < length H
                 \<and> nas_alphas s ! i \<notin> set (drop (Suc i) (nas_alphas s)) \<longrightarrow>
               grad (unrolled_backward ag s) (nas_alphas s ! i)
                 = Some (map Num (map2 (\<lambda>di hi. di - opt_lr s * hi) (dc ! i) (H ! i)))))
       \<and> opt_lr (unrolled_backward ag s) = opt_lr s
       \<and> opt_momentum (unrolled_backward ag s) = opt_momentum s
       \<and> opt_weight_decay (unrolled_backward ag s) = opt_weight_decay s
       \<and> momentum_buffer (unrolled_backward ag s) = momentum_buffer s
       \<and> (\<forall>a<next_addr s. heap (unrolled_backward ag s) a = heap s a)"
proof -
  have a: "set (arch_weights m) \<subseteq> set (model_parameters s)"
    unfolding mp by (rule arch_weights_are_parameters)
  have dist: "distinct (model_parameters s)"
    unfolding mp Module_named_parameters_def by (rule remove_duplicate_distinct)
  note W = unrolled_backward_warning [OF wf w g lds]
  note F = unrolled_backward_frame [OF wf, of ag]
  have B: "local_hessian ag s = finite_tensors H
          \<and> read_parameters (hessian_state ag s) = finite_tensors (axpy (- e) ws ds)
          \<and> (\<forall>i. i < length (nas_alphas s) \<and> i < length dc \<and> i < length H
                 \<and> nas_alphas s ! i \<notin> set (drop (Suc i) (nas_alphas s)) \<longrightarrow>
               grad (unrolled_backward ag s) (nas_alphas s ! i)
                 = Some (map Num (map2 (\<lambda>di hi. di - opt_lr s * hi) (dc ! i) (H ! i))))"
    if n0: "euclidean_norm ds \<noteq> 0"
      and gp: "grad_train_alpha ag 0 (finite_tensors (axpy e ws ds)) = finite_tensors gp"
      and gn: "grad_train_alpha ag 1 (finite_tensors (axpy (- 2 * e) (axpy e ws ds) ds))
                = finite_tensors gn"
  proof (intro conjI allI impI)
    note U = unrolled_backward_finite [OF dist wf w g lds n0 e gp gn H]
    show "local_hessian ag s = finite_tensors H" by (rule U(1))
    show "read_parameters (hessian_state ag s) = finite_tensors (axpy (- e) ws ds)" by (rule U(2))
    fix i
    assume "i < length (nas_alphas s) \<and> i < length dc \<and> i < length H
                 \<and> nas_alphas s ! i \<notin> set (drop (Suc i) (nas_alphas s))"
    then show "grad (unrolled_backward ag s) (nas_alphas s ! i)
                 = Some (map Num (map2 (\<lambda>di hi. di - opt_lr s * hi) (dc ! i) (H ! i)))"
      using U(3) [of i] by simp
  qed
  have B': "euclidean_norm ds \<noteq> 0
            \<and> grad_train_alpha ag 0 (finite_tensors (axpy e ws ds)) = finite_tensors gp
            \<and> grad_train_alpha ag 1 (finite_tensors (axpy (- 2 * e) (axpy e ws ds) ds))
                = finite_tensors gn \<longrightarrow>
          local_hessian ag s = finite_tensors H
          \<and> read_parameters (hessian_state ag s) = finite_tensors (axpy (- e) ws ds)
          \<and> (\<forall>i. i < length (nas_alphas s) \<and> i < length dc \<and> i < length H
                 \<and> nas_alphas s ! i \<notin> set (drop (Suc i) (nas_alphas s)) \<longrightarrow>
               grad (unrolled_backward ag s) (nas_alphas s ! i)
                 = Some (map Num (map2 (\<lambda>di hi. di - opt_lr s * hi) (dc ! i) (H ! i))))"
    using B by (intro impI) (elim conjE)
  have F1: "opt_lr (unrolled_backward ag s) = opt_lr s"
    and F2: "opt_momentum (unrolled_backward ag s) = opt_momentum s"
    and F3: "opt_weight_decay (unrolled_backward ag s) = opt_weight_decay s"
    and F4: "momentum_buffer (unrolled_backward ag s) = momentum_buffer s"
    and F5: "\<forall>a<next_addr s. heap (unrolled_backward ag s) a = heap s a"
    using F by simp_all
  show ?thesis
    by (intro conjI a W B' F1 F2 F3 F4 F5)
qed

lemma sqrt_25: "sqrt 25 = 5"
proof -
  have "sqrt (5 ^ 2) = \<bar>5::real\<bar>" by (rule real_sqrt_abs)
  then show ?thesis by simp
qed

lemma ex_norm: "euclidean_norm [[3], [4]] = 5"
  by (simp add: euclidean_norm_def sqrt_25)

text \<open>
  The example trainer with the separable training loss. The architecture weight, the
  tensor at address 1, is one of the model's parameters; \<open>\<epsilon>\<close> is \<open>0.01 / 5\<close>, from the
  norm of \<open>(3, 4)\<close>; the architecture weight is moved with the weight and stands at
  \<open>249 / 125\<close> instead of \<open>2\<close> when \<^verbatim>\<open>_compute_hessian\<close> returns; the result is \<open>4\<close> and
  the gradient assigned is \<open>4 - 0.1 \<sqdot> 4\<close>. With the architecture weight unmoved, at
  \<open>w \<plusminus> 0.01\<close>, the two gradients of this training loss are equal, and their difference
  is \<open>0\<close>.
\<close>

theorem hessian_perturbs_architecture_weights_witness:
  "arch_weights example_model = [1]
   \<and> model_parameters example_trainer = [0, 1]
   \<and> read_parameters example_trainer = [[Num 1], [Num 2]]
   \<and> read_parameters (hessian_state separable_autograd example_trainer)
       = [[Num (497 / 500)], [Num (249 / 125)]]
   \<and> local_hessian separable_autograd example_trainer = [[Num 4]]
   \<and> grad (unrolled_backward separable_autograd example_trainer) 1 = Some [Num (18 / 5)]
   \<and> grad_train_alpha separable_autograd 0 [[Num (101 / 100)], [Num 2]]
       = grad_train_alpha separable_autograd 1 [[Num (99 / 100)], [Num 2]]"
proof -
  have mp: "model_parameters example_trainer = map snd (Module_named_parameters example_model)"
    by (simp add: example_trainer_def example_model_def Module_named_parameters_def
        DartsLayerChoice_module_def)
  have wf: "\<forall>a\<in>set (model_parameters example_trainer). a < next_addr example_trainer"
    by (simp add: example_trainer_def)
  have w: "read_parameters example_trainer = finite_tensors [[1], [2]]"
    by (simp add: read_parameters_def example_trainer_def finite_tensors_def)
  have g: "grad_valid separable_autograd (finite_tensors [[1], [2]]) = finite_tensors ([[3], [4]] @ [[4]])"
    by (simp add: separable_autograd_def finite_tensors_def)
  have lds: "length [[3], [4 :: real]] = length (model_parameters example_trainer)"
    by (simp add: example_trainer_def)
  have e: "(1 / 500 :: real) = 1 / 100 / euclidean_norm [[3], [4]]"
    by (simp add: ex_norm)
  have H: "[[4 :: real]] = map2 (map2 (\<lambda>pi ni. (pi - ni) / (2 * (1 / 500)))) [[251 / 125]] [[249 / 125]]"
    by simp
  have n0: "euclidean_norm [[3], [4]] \<noteq> 0"
    by (simp add: ex_norm)
  have gp: "grad_train_alpha separable_autograd 0 (finite_tensors (axpy (1 / 500) [[1], [2]] [[3], [4]]))
      = finite_tensors [[251 / 125]]"
    by (simp add: separable_autograd_def finite_tensors_def axpy_def)
  have gn: "grad_train_alpha separable_autograd 1
        (finite_tensors (axpy (- 2 * (1 / 500)) (axpy (1 / 500) [[1], [2]] [[3], [4]]) [[3], [4]]))
      = finite_tensors [[249 / 125]]"
    by (simp add: separable_autograd_def finite_tensors_def axpy_def)
  note t = hessian_perturbs_architecture_weights [OF mp wf w g lds e H]
  from t n0 gp gn have h: "local_hessian separable_autograd example_trainer = finite_tensors [[4]]"
    and p: "read_parameters (hessian_state separable_autograd example_trainer)
       = finite_tensors (axpy (- (1 / 500)) [[1], [2]] [[3], [4]])"
    and gr: "\<forall>i. i < length (nas_alphas example_trainer) \<and> i < length [[4 :: real]] \<and> i < length [[4 :: real]]
                 \<and> nas_alphas example_trainer ! i \<notin> set (drop (Suc i) (nas_alphas example_trainer)) \<longrightarrow>
               grad (unrolled_backward separable_autograd example_trainer) (nas_alphas example_trainer ! i)
                 = Some (map Num (map2 (\<lambda>di hi. di - opt_lr example_trainer * hi) ([[4]] ! i) ([[4]] ! i)))"
    by blast+
  have c1: "arch_weights example_model = [1]"
    by (simp add: example_model_def DartsLayerChoice_module_def)
  have c2: "model_parameters example_trainer = [0, 1]"
    by (simp add: example_trainer_def)
  have c3: "read_parameters example_trainer = [[Num 1], [Num 2]]"
    by (simp add: read_parameters_def example_trainer_def)
  have c4: "read_parameters (hessian_state separable_autograd example_trainer)
       = [[Num (497 / 500)], [Num (249 / 125)]]"
    by (simp add: p finite_tensors_def axpy_def)
  have c5: "local_hessian separable_autograd example_trainer = [[Num 4]]"
    by (simp add: h finite_tensors_def)
  have c6: "grad (unrolled_backward separable_autograd example_trainer) 1 = Some [Num (18 / 5)]"
    using gr [rule_format, of 0] by (simp add: example_trainer_def)
  have c7: "grad_train_alpha separable_autograd 0 [[Num (101 / 100)], [Num 2]]
       = grad_train_alpha separable_autograd 1 [[Num (99 / 100)], [Num 2]]"
    by (simp add: separable_autograd_def)
  show ?thesis
    by (intro conjI c1 c2 c3 c4 c5 c6 c7)
qed

end
